theory Spec2Isabelle
  imports Main "HOL-Library.Word"
begin

section \<open>JavaScript values used by the delivery pipeline\<close>

text \<open>
  Numbers are modelled as \<open>int\<close>. A JavaScript number is a double, so the model is
  exact on the safe integers (\<open>Number.isSafeInteger\<close>): invoice ids (SQLite row ids),
  millisecond timestamps and day counts all live there. Strings are \<open>string\<close>; the
  text handled here (decimal digits, hex digests, paths, colons) is ASCII.
\<close>

definition MAX_SAFE_INTEGER :: int where
  "MAX_SAFE_INTEGER = 2 ^ 53 - 1"

definition isSafeInteger :: "int \<Rightarrow> bool" where
  "isSafeInteger n = (- MAX_SAFE_INTEGER \<le> n \<and> n \<le> MAX_SAFE_INTEGER)"

text \<open>
  The values that reach \<open>`${x}`\<close> and \<open>parseInt(x)\<close> in \<open>urlSigning.js\<close>: a number,
  a string, or \<open>undefined\<close> (a missing element of a destructured array).
\<close>

datatype js_value = JNum int | JStr string | JUndefined

subsection \<open>Number to string\<close>

fun digits :: "nat \<Rightarrow> string" where
  "digits n = (if n < 10 then [char_of (48 + n)]
               else digits (n div 10) @ [char_of (48 + n mod 10)])"

declare digits.simps [simp del]

definition numToString :: "int \<Rightarrow> string" where
  "numToString n = (if n < 0 then CHR ''-'' # digits (nat (- n)) else digits (nat n))"

fun toString :: "js_value \<Rightarrow> string" where
  "toString (JNum n) = numToString n"
| "toString (JStr s) = s"
| "toString JUndefined = ''undefined''"

subsection \<open>parseInt\<close>

text \<open>
  \<open>parseInt(string)\<close> with no radix: leading white space is skipped, one sign is read,
  a \<open>0x\<close>/\<open>0X\<close> prefix selects radix 16, and the longest prefix of digits of the radix
  is the value. No digit at all gives \<open>NaN\<close>, which is \<open>None\<close> here. The white
  space is that of the code units below 256: tab, line feed, vertical tab, form feed,
  carriage return, space and no-break space.
\<close>

definition isWhiteSpace :: "char \<Rightarrow> bool" where
  "isWhiteSpace c = (of_char c \<in> {9, 10, 11, 12, 13, 32, 160 :: nat})"

definition digitValue :: "char \<Rightarrow> nat option" where
  "digitValue c =
     (let n = of_char c :: nat in
      if 48 \<le> n \<and> n \<le> 57 then Some (n - 48)
      else if 97 \<le> n \<and> n \<le> 122 then Some (n - 87)
      else if 65 \<le> n \<and> n \<le> 90 then Some (n - 55)
      else None)"

definition radixDigit :: "nat \<Rightarrow> char \<Rightarrow> nat option" where
  "radixDigit R c =
     (case digitValue c of
        None \<Rightarrow> None
      | Some d \<Rightarrow> if d < R then Some d else None)"

fun parseDigits :: "nat \<Rightarrow> string \<Rightarrow> nat option \<Rightarrow> nat option" where
  "parseDigits R [] acc = acc"
| "parseDigits R (c # cs) acc =
     (case radixDigit R c of
        None \<Rightarrow> acc
      | Some d \<Rightarrow> parseDigits R cs (Some ((case acc of None \<Rightarrow> 0 | Some a \<Rightarrow> a) * R + d)))"

fun stripSign :: "string \<Rightarrow> int \<times> string" where
  "stripSign [] = (1, [])"
| "stripSign (c # cs) =
     (if c = CHR ''-'' then (- 1, cs) else if c = CHR ''+'' then (1, cs) else (1, c # cs))"

fun stripPrefix :: "string \<Rightarrow> nat \<times> string" where
  "stripPrefix (a # b # cs) =
     (if a = CHR ''0'' \<and> (b = CHR ''x'' \<or> b = CHR ''X'') then (16, cs) else (10, a # b # cs))"
| "stripPrefix cs = (10, cs)"

definition parseIntStr :: "string \<Rightarrow> int option" where
  "parseIntStr s =
     (let (sign, s1) = stripSign (dropWhile isWhiteSpace s);
          (R, s2) = stripPrefix s1
      in map_option (\<lambda>n. sign * int n) (parseDigits R s2 None))"

definition parseInt :: "js_value \<Rightarrow> int option" where
  "parseInt v = parseIntStr (toString v)"

text \<open>
  \<open>a !== b\<close> on two results of \<open>parseInt\<close>: \<open>NaN\<close> is unequal to everything,
  itself included.
\<close>

definition strictNotEqualNum :: "int option \<Rightarrow> int option \<Rightarrow> bool" where
  "strictNotEqualNum a b =
     (case (a, b) of (Some x, Some y) \<Rightarrow> x \<noteq> y | _ \<Rightarrow> True)"

text \<open>\<open>n > x\<close> for a number \<open>n\<close> and a result of \<open>parseInt\<close>: false against \<open>NaN\<close>.\<close>

definition greaterThanNum :: "int \<Rightarrow> int option \<Rightarrow> bool" where
  "greaterThanNum n x = (case x of None \<Rightarrow> False | Some y \<Rightarrow> n > y)"

subsection \<open>String.prototype.split and array destructuring\<close>

fun split :: "char \<Rightarrow> string \<Rightarrow> string list" where
  "split sep [] = [[]]"
| "split sep (c # cs) =
     (if c = sep then [] # split sep cs
      else (case split sep cs of
              [] \<Rightarrow> [[c]]
            | p # ps \<Rightarrow> (c # p) # ps))"

definition element :: "string list \<Rightarrow> nat \<Rightarrow> js_value" where
  "element xs i = (if i < length xs then JStr (xs ! i) else JUndefined)"

section \<open>URL signing (src/utils/urlSigning.js)\<close>

text \<open>
  The Node runtime the module calls into, taken as parameters: the keyed hash of
  \<open>crypto.createHmac('sha256', SECRET)\<close> (key, message, digest bytes) and the two
  directions of \<open>Buffer\<close>'s base64 conversion. \<open>SECRET\<close> is the module constant read
  from the environment.
\<close>

record runtime =
  SECRET :: string
  hmac_sha256 :: "string \<Rightarrow> string \<Rightarrow> 8 word list"
  base64_encode :: "string \<Rightarrow> string"
  base64_decode :: "string \<Rightarrow> string"

text \<open>The law of \<open>Buffer\<close> the module relies on: decoding an encoded string gives it back.\<close>

definition base64_roundtrip :: "runtime \<Rightarrow> bool" where
  "base64_roundtrip rt = (\<forall>s. base64_decode rt (base64_encode rt s) = s)"

definition hexDigit :: "nat \<Rightarrow> char" where
  "hexDigit n = (if n < 10 then char_of (48 + n) else char_of (87 + n))"

definition digestHex :: "8 word list \<Rightarrow> string" where
  "digestHex bs = concat (map (\<lambda>b. [hexDigit (unat b div 16), hexDigit (unat b mod 16)]) bs)"

definition hmacHex :: "runtime \<Rightarrow> string \<Rightarrow> string" where
  "hmacHex rt payload = digestHex (hmac_sha256 rt (SECRET rt) payload)"

text \<open>
  \<open>generateSignedUrl(invoiceId, expiryDays)\<close>; \<open>now\<close> is the value of \<open>Date.now()\<close>
  at the call.
\<close>

definition generateSignedUrl :: "runtime \<Rightarrow> int \<Rightarrow> js_value \<Rightarrow> int \<Rightarrow> string" where
  "generateSignedUrl rt now invoiceId expiryDays =
     (let expiry = now + expiryDays * 24 * 60 * 60 * 1000;
          payload = toString invoiceId @ '':'' @ numToString expiry;
          signature = hmacHex rt payload;
          token = base64_encode rt (payload @ '':'' @ signature)
      in token)"

text \<open>
  \<open>verifySignedUrl(token, invoiceId)\<close>. The token is a string, so nothing in the body
  throws and the \<open>catch\<close> branch (which also returns false) is never entered.
\<close>

definition verifySignedUrl :: "runtime \<Rightarrow> int \<Rightarrow> string \<Rightarrow> js_value \<Rightarrow> bool" where
  "verifySignedUrl rt now token invoiceId =
     (let decoded = base64_decode rt token;
          parts = split CHR '':'' decoded;
          id = element parts 0;
          expiry = element parts 1;
          signature = element parts 2
      in if strictNotEqualNum (parseInt id) (parseInt invoiceId) then False
         else if greaterThanNum now (parseInt expiry) then False
         else if signature \<noteq> JStr (hmacHex rt (toString id @ '':'' @ toString expiry)) then False
         else True)"

section \<open>Thrown values\<close>

text \<open>
  What the pipeline throws and catches: an \<open>Error\<close> object (\<open>message\<close>, sometimes
  \<open>code\<close>), or the plain object the channel services throw from their own \<open>catch\<close>
  (\<open>error\<close>, \<open>errorCode\<close>). A property that is absent is \<open>None\<close>.
\<close>

record js_error =
  message :: "string option"
  code :: "string option"
  error :: "string option"
  errorCode :: "string option"

definition Error :: "string \<Rightarrow> js_error" where
  "Error msg = \<lparr>message = Some msg, code = None, error = None, errorCode = None\<rparr>"

definition TypeError :: js_error where
  "TypeError = Error ''Cannot read properties of undefined''"

text \<open>
  The object both services build in their \<open>catch\<close>:
  \<open>{ success: false, provider, error: error.message, errorCode: error.code }\<close>.
\<close>

definition sendFailure :: "js_error \<Rightarrow> js_error" where
  "sendFailure e = \<lparr>message = None, code = None, error = message e, errorCode = code e\<rparr>"

text \<open>Truthiness of a nullable string, and \<open>x || d\<close> on nullable strings and numbers.\<close>

definition truthy :: "string option \<Rightarrow> bool" where
  "truthy x = (case x of None \<Rightarrow> False | Some s \<Rightarrow> s \<noteq> [])"

definition orString :: "string option \<Rightarrow> string \<Rightarrow> string" where
  "orString x d = (case x of None \<Rightarrow> d | Some s \<Rightarrow> if s = [] then d else s)"

definition orNumber :: "int option \<Rightarrow> int \<Rightarrow> int" where
  "orNumber x d = (case x of None \<Rightarrow> d | Some n \<Rightarrow> if n = 0 then d else n)"

section \<open>Database (src/utils/db.js)\<close>

text \<open>
  The tables the worker and the routes touch, with the columns their statements read or
  write. Integer flag columns tested for truthiness are \<open>bool\<close>; \<open>created_at\<close> and
  \<open>generated_at\<close> are seconds on the database clock. A statement against an existing
  table succeeds; the only query the source guards on its own is the one on
  \<open>customer_preferences\<close>, a table the schema does not create, so that table is optional.
\<close>

record invoice_data =
  invoiceNumber :: string
  customerName :: string
  customerEmail :: "string option"
  customerPhone :: "string option"

record invoice = invoice_data +
  send_status :: string
  email_sent :: int
  sms_sent :: int

record settings =
  company_name :: "string option"
  company_email :: "string option"
  company_address :: "string option"
  company_phone :: "string option"
  email_enabled :: bool
  email_provider :: "string option"
  email_from :: "string option"
  sms_enabled :: bool
  sms_provider :: "string option"
  signed_url_expiry_days :: "int option"

record preferences =
  email_unsubscribed :: bool
  sms_opt_in :: bool
  unsubscribe_token :: "string option"

record send_log =
  log_id :: nat
  invoice_id :: int
  send_type :: string
  recipient :: "string option"
  status :: string
  provider :: "string option"
  provider_message_id :: "string option"
  provider_response :: "string option"
  triggered_by :: "string option"
  trigger_type :: "string option"
  error_message :: "string option"
  error_code :: "string option"
  created_at :: int

record file_info =
  fileName :: string
  filePath :: string
  fileSize :: nat
  fileHash :: string
  storageType :: string

record invoice_file =
  file_invoice_id :: int
  file_name :: string
  file_path :: string
  file_size :: nat
  file_hash :: string
  storage_type :: string
  signed_url :: "string option"
  generated_at :: int

record database =
  invoices :: "int \<rightharpoonup> invoice"
  invoice_settings :: "settings option"
  customer_preferences :: "(string \<rightharpoonup> preferences) option"
  send_logs :: "send_log list"
  invoice_files :: "invoice_file list"

section \<open>Observable events\<close>

text \<open>
  The order in which a job talks to its collaborators is recorded as a trace: progress
  reports, calls into the PDF generator and the channel services with their return or
  throw, and the statements run against the database. Next to each event the history
  keeps the rows of \<open>send_logs\<close> as they stand when the event is recorded; for a
  statement these are the rows the statement leaves.
\<close>

datatype channel = Email | Sms

datatype call =
    GenerateInvoicePDF
  | SavePDF
  | ServiceInit channel
  | SendInvoiceEmail "8 word list option" "string option" "string option"
  | SendInvoiceSMS "string option"

datatype statement =
    InsertInvoiceFile
  | InsertSendLog channel nat
  | UpdateSendLog channel nat string
  | UpdateInvoiceSent channel
  | UpdateSendStatus string

datatype event =
    Progress nat
  | Call call
  | Returned call
  | Threw call
  | Run statement

record world =
  db :: database
  trace :: "event list"
  history :: "send_log list list"

definition logEvent :: "event \<Rightarrow> world \<Rightarrow> world" where
  "logEvent e w = w\<lparr>trace := trace w @ [e], history := history w @ [send_logs (db w)]\<rparr>"

text \<open>An awaited call into a collaborator: the call, then its return or its throw.\<close>

definition await :: "call \<Rightarrow> js_error + 'a \<Rightarrow> world \<Rightarrow> (js_error + 'a) \<times> world" where
  "await c outcome w =
     (outcome,
      logEvent (case outcome of Inl _ \<Rightarrow> Threw c | Inr _ \<Rightarrow> Returned c) (logEvent (Call c) w))"

subsection \<open>The statements of the worker\<close>

definition sendType :: "channel \<Rightarrow> string" where
  "sendType ch = (case ch of Email \<Rightarrow> ''email'' | Sms \<Rightarrow> ''sms'')"

text \<open>
  \<open>lastID\<close> of an insert into \<open>send_logs\<close>: one more than the largest row id
  (no statement of the repository deletes a row of the table).
\<close>

definition nextId :: "send_log list \<Rightarrow> nat" where
  "nextId logs = Suc (foldr max (map log_id logs) 0)"

text \<open>The row both inserts write: status \<open>sending\<close>, the outcome columns still null.\<close>

definition sendingRow ::
  "channel \<Rightarrow> nat \<Rightarrow> int \<Rightarrow> string option \<Rightarrow> string option \<Rightarrow> string option \<Rightarrow> string option \<Rightarrow>
   int \<Rightarrow> send_log" where
  "sendingRow ch lastID i recip prov trigBy trigType now =
     \<lparr>log_id = lastID, invoice_id = i, send_type = sendType ch,
      recipient = recip, status = ''sending'', provider = prov,
      provider_message_id = None, provider_response = None,
      triggered_by = trigBy, trigger_type = trigType,
      error_message = None, error_code = None, created_at = now\<rparr>"

definition insertSendLog ::
  "channel \<Rightarrow> int \<Rightarrow> string option \<Rightarrow> string option \<Rightarrow> string option \<Rightarrow> string option \<Rightarrow>
   int \<Rightarrow> world \<Rightarrow> nat \<times> world" where
  "insertSendLog ch i recip prov trigBy trigType now w =
     (let lastID = nextId (send_logs (db w));
          row = sendingRow ch lastID i recip prov trigBy trigType now
      in (lastID,
          logEvent (Run (InsertSendLog ch lastID))
            (w\<lparr>db := (db w)\<lparr>send_logs := send_logs (db w) @ [row]\<rparr>\<rparr>)))"

definition updateSendLog :: "channel \<Rightarrow> nat \<Rightarrow> (send_log \<Rightarrow> send_log) \<Rightarrow> string \<Rightarrow> world \<Rightarrow> world" where
  "updateSendLog ch lastID f st w =
     logEvent (Run (UpdateSendLog ch lastID st))
       (w\<lparr>db := (db w)\<lparr>send_logs :=
              map (\<lambda>r. if log_id r = lastID then f r else r) (send_logs (db w))\<rparr>\<rparr>)"

definition updateInvoice :: "int \<Rightarrow> (invoice \<Rightarrow> invoice) \<Rightarrow> database \<Rightarrow> database" where
  "updateInvoice invoiceId f d =
     (case invoices d invoiceId of
        None \<Rightarrow> d
      | Some row \<Rightarrow> d\<lparr>invoices := (invoices d)(invoiceId \<mapsto> f row)\<rparr>)"

definition updateInvoiceSent :: "channel \<Rightarrow> int \<Rightarrow> world \<Rightarrow> world" where
  "updateInvoiceSent ch invoiceId w =
     logEvent (Run (UpdateInvoiceSent ch))
       (w\<lparr>db := updateInvoice invoiceId
                 (case ch of
                    Email \<Rightarrow> (\<lambda>row. row\<lparr>email_sent := 1\<rparr>)
                  | Sms \<Rightarrow> (\<lambda>row. row\<lparr>sms_sent := 1\<rparr>)) (db w)\<rparr>)"

definition updateSendStatus :: "string \<Rightarrow> int \<Rightarrow> world \<Rightarrow> world" where
  "updateSendStatus st invoiceId w =
     logEvent (Run (UpdateSendStatus st))
       (w\<lparr>db := updateInvoice invoiceId (\<lambda>row. row\<lparr>send_status := st\<rparr>) (db w)\<rparr>)"

definition insertInvoiceFile :: "int \<Rightarrow> file_info \<Rightarrow> string \<Rightarrow> int \<Rightarrow> world \<Rightarrow> world" where
  "insertInvoiceFile invoiceId fileInfo signedUrl now w =
     logEvent (Run InsertInvoiceFile)
       (w\<lparr>db := (db w)\<lparr>invoice_files := invoice_files (db w) @
              [\<lparr>file_invoice_id = invoiceId, file_name = fileName fileInfo,
                file_path = filePath fileInfo, file_size = fileSize fileInfo,
                file_hash = fileHash fileInfo, storage_type = storageType fileInfo,
                signed_url = Some signedUrl, generated_at = now\<rparr>]\<rparr>\<rparr>)"

section \<open>Collaborators of the worker\<close>

text \<open>
  The PDF generator, the providers behind the channel services and the clocks are outside
  the pipeline; they are parameters of a job's run. \<open>emailTransmit\<close> and
  \<open>smsTransmit\<close> stand for the \<open>try\<close> bodies of \<open>sendInvoiceEmail\<close> and
  \<open>sendInvoiceSMS\<close> (template rendering and the provider's send),
  \<open>parsePhoneNumber\<close> for libphonenumber (\<open>None\<close>: it throws or the number is not valid;
  otherwise the E.164 form). \<open>Date_now\<close> is the millisecond clock read when the token is
  minted; \<open>now_file\<close>, \<open>now_email\<close> and \<open>now_sms\<close> are the database clock at the
  three inserts.
\<close>

record company_data =
  name :: string
  email :: string
  address :: string
  phone :: string

record send_result =
  messageId :: "string option"
  response :: "string option"

record email_params =
  to :: "string option"
  emailCustomerName :: string
  emailInvoiceData :: invoice_data
  pdfBuffer :: "8 word list option"
  pdfFileName :: "string option"
  invoiceUrl :: "string option"
  unsubscribeUrl :: string
  emailSettings :: settings

record sms_params =
  smsTo :: "string option"
  smsCustomerName :: string
  smsInvoiceData :: invoice_data
  smsInvoiceUrl :: "string option"
  smsSettings :: settings

record env =
  appUrl :: string
  generateInvoicePDF :: "invoice_data \<Rightarrow> company_data \<Rightarrow> js_error + 8 word list"
  savePDF :: "8 word list \<Rightarrow> string \<Rightarrow> js_error + file_info"
  emailInit :: "settings \<Rightarrow> js_error + unit"
  emailTransmit :: "email_params \<Rightarrow> js_error + send_result"
  smsInit :: "settings \<Rightarrow> js_error + unit"
  parsePhoneNumber :: "string \<Rightarrow> string option"
  smsTransmit :: "string \<Rightarrow> sms_params \<Rightarrow> js_error + send_result"
  Date_now :: int
  now_file :: int
  now_email :: int
  now_sms :: int

subsection \<open>Channel services (emailService.js, src/services/smsService.js)\<close>

text \<open>
  \<open>sendInvoiceEmail\<close>: whatever its \<open>try\<close> body throws is caught and thrown again as
  the failure object.
\<close>

definition sendInvoiceEmail :: "env \<Rightarrow> email_params \<Rightarrow> js_error + send_result" where
  "sendInvoiceEmail e params =
     (case emailTransmit e params of
        Inl err \<Rightarrow> Inl (sendFailure err)
      | Inr result \<Rightarrow> Inr result)"

definition validatePhoneNumber :: "env \<Rightarrow> string option \<Rightarrow> js_error + string" where
  "validatePhoneNumber e ph =
     (case ph of
        None \<Rightarrow> Inl (Error ''Invalid phone number: undefined'')
      | Some number \<Rightarrow>
          (case parsePhoneNumber e number of
             None \<Rightarrow> Inl (Error (''Invalid phone number: '' @ number))
           | Some formatted \<Rightarrow> Inr formatted))"

definition sendInvoiceSMS :: "env \<Rightarrow> sms_params \<Rightarrow> js_error + send_result" where
  "sendInvoiceSMS e params =
     (case validatePhoneNumber e (smsTo params) of
        Inl err \<Rightarrow> Inl (sendFailure err)
      | Inr phoneNumber \<Rightarrow>
          (case smsTransmit e phoneNumber params of
             Inl err \<Rightarrow> Inl (sendFailure err)
           | Inr res \<Rightarrow> Inr res))"

section \<open>Jobs and the mock queue (queue/mockQueue.js)\<close>

record job_data =
  invoiceId :: int
  invoiceData :: invoice_data
  triggeredBy :: "string option"
  triggerType :: "string option"

record 'd job =
  job_id :: string
  job_payload :: 'd

text \<open>
  A job is \<open>{ id, data, progress }\<close>; \<open>progress\<close> prints the percentage, which is
  the event \<open>Progress\<close> of the trace. What \<open>add\<close> resolves to is
  \<open>{ id, data, result }\<close>, with \<open>result\<close> absent when nothing ran.
\<close>

record ('d, 'r) queued =
  queued_id :: string
  queued_data :: 'd
  result :: "'r option"

record ('d, 'r, 'w) MockQueue =
  queue_name :: string
  processor :: "('d job \<Rightarrow> 'w \<Rightarrow> (js_error + 'r) \<times> 'w) option"

definition mockQueue :: "string \<Rightarrow> ('d, 'r, 'w) MockQueue" where
  "mockQueue n = \<lparr>queue_name = n, processor = None\<rparr>"

text \<open>
  \<open>add(jobName, data, options)\<close>. \<open>now\<close> is \<open>Date.now()\<close>, which names the job.
  The queue object is returned next to the result: \<open>add\<close> assigns none of its fields.
\<close>

definition add ::
  "('d, 'r, 'w) MockQueue \<Rightarrow> string \<Rightarrow> 'd \<Rightarrow> int \<Rightarrow> 'w \<Rightarrow>
   (js_error + ('d, 'r) queued) \<times> ('d, 'r, 'w) MockQueue \<times> 'w" where
  "add q jobName d now w =
     (case processor q of
        Some run \<Rightarrow>
          (let j = \<lparr>job_id = toString (JNum now), job_payload = d\<rparr>
           in case run j w of
                (Inl err, w') \<Rightarrow> (Inl err, q, w')
              | (Inr res, w') \<Rightarrow> (Inr \<lparr>queued_id = job_id j, queued_data = d, result = Some res\<rparr>, q, w'))
      | None \<Rightarrow> (Inr \<lparr>queued_id = toString (JNum now), queued_data = d, result = None\<rparr>, q, w))"

definition process ::
  "('d, 'r, 'w) MockQueue \<Rightarrow> string \<Rightarrow> nat \<Rightarrow> ('d job \<Rightarrow> 'w \<Rightarrow> (js_error + 'r) \<times> 'w) \<Rightarrow>
   ('d, 'r, 'w) MockQueue" where
  "process q jobName concurrency processorFn = q\<lparr>processor := Some processorFn\<rparr>"

section \<open>The worker (src/workers/invoice-worker.js)\<close>

datatype job_result =
    Skipped string
  | Success int "string option"

text \<open>
  The guarded lookup of the customer's preferences: a missing table makes \<open>db.get\<close>
  reject, the \<open>catch\<close> leaves \<open>prefs\<close> null.
\<close>

definition loadPreferences :: "database \<Rightarrow> string option \<Rightarrow> preferences option" where
  "loadPreferences d customer =
     (case customer_preferences d of
        None \<Rightarrow> None
      | Some table \<Rightarrow> (case customer of None \<Rightarrow> None | Some e \<Rightarrow> table e))"

text \<open>\<open>prefs?.email_unsubscribed\<close> and \<open>prefs?.sms_opt_in\<close>.\<close>

definition unsubscribed :: "preferences option \<Rightarrow> bool" where
  "unsubscribed prefs = (case prefs of None \<Rightarrow> False | Some p \<Rightarrow> email_unsubscribed p)"

definition optedIn :: "preferences option \<Rightarrow> bool" where
  "optedIn prefs = (case prefs of None \<Rightarrow> False | Some p \<Rightarrow> sms_opt_in p)"

text \<open>The resource the worker signs: the retrieval path, not the invoice id.\<close>

definition pdfPath :: "int \<Rightarrow> string" where
  "pdfPath i = ''/api/invoices/'' @ toString (JNum i) @ ''/pdf''"

text \<open>
  Step 1, the inner \<open>try\<close>/\<open>catch\<close> around PDF generation and storage. It yields
  \<open>pdfBuffer\<close>, \<open>fileName\<close> and \<open>invoiceUrl\<close>; the \<open>catch\<close> resets all three
  to null. Absent settings make the first property read throw inside the \<open>try\<close>.
\<close>

definition companyData :: "settings \<Rightarrow> company_data" where
  "companyData s =
     \<lparr>name = orString (company_name s) ''Finverse'',
      email = orString (company_email s) (orString (email_from s) ''noreply@finverse.info''),
      address = orString (company_address s) [],
      phone = orString (company_phone s) []\<rparr>"

definition generatePdfStep ::
  "runtime \<Rightarrow> env \<Rightarrow> settings option \<Rightarrow> job_data \<Rightarrow> world \<Rightarrow>
   (8 word list option \<times> string option \<times> string option) \<times> world" where
  "generatePdfStep rt e st d w =
     (case st of
        None \<Rightarrow> ((None, None, None), w)
      | Some s \<Rightarrow>
          (let (generated, w1) =
                 await GenerateInvoicePDF (generateInvoicePDF e (invoiceData d) (companyData s)) w
           in case generated of
                Inl pdfError \<Rightarrow> ((None, None, None), w1)
              | Inr buffer \<Rightarrow>
                  (let file = ''invoice-'' @ invoiceNumber (invoiceData d) @ ''.pdf'';
                       w2 = logEvent (Progress 25) w1;
                       (saved, w3) = await SavePDF (savePDF e buffer file) w2
                   in case saved of
                        Inl pdfError \<Rightarrow> ((None, None, None), w3)
                      | Inr fileInfo \<Rightarrow>
                          (let signedUrl =
                                 generateSignedUrl rt (Date_now e) (JStr (pdfPath (invoiceId d)))
                                   (orNumber (signed_url_expiry_days s) 7);
                               w4 = insertInvoiceFile (invoiceId d) fileInfo signedUrl
                                      (now_file e) w3
                           in ((Some buffer, Some file, Some signedUrl), w4)))))"

text \<open>
  Step 2. \<open>emailTry\<close> is the \<open>try\<close> block after the send-log insert: initialise the
  service, dispatch, then the two success updates. \<open>sendEmailStep\<close> adds the insert
  before it and the \<open>catch\<close> after it, which marks the row failed and throws again.
\<close>

definition emailParams ::
  "env \<Rightarrow> settings \<Rightarrow> preferences option \<Rightarrow> job_data \<Rightarrow>
   (8 word list option \<times> string option \<times> string option) \<Rightarrow> email_params" where
  "emailParams e s prefs d artifact =
     (case artifact of (buffer, file, url) \<Rightarrow>
        \<lparr>to = customerEmail (invoiceData d),
         emailCustomerName = customerName (invoiceData d),
         emailInvoiceData = invoiceData d,
         pdfBuffer = buffer, pdfFileName = file, invoiceUrl = url,
         unsubscribeUrl = appUrl e @ ''/unsubscribe?token='' @
           orString (case prefs of None \<Rightarrow> None | Some p \<Rightarrow> unsubscribe_token p) [],
         emailSettings = s\<rparr>)"

definition emailTry ::
  "env \<Rightarrow> settings \<Rightarrow> preferences option \<Rightarrow> job_data \<Rightarrow>
   (8 word list option \<times> string option \<times> string option) \<Rightarrow> nat \<Rightarrow> world \<Rightarrow>
   (js_error + unit) \<times> world" where
  "emailTry e s prefs d artifact lastID w =
     (let (initialised, w1) = await (ServiceInit Email) (emailInit e s) w
      in case initialised of
           Inl err \<Rightarrow> (Inl err, w1)
         | Inr _ \<Rightarrow>
             (let params = emailParams e s prefs d artifact;
                  (sent, w2) = await (SendInvoiceEmail (pdfBuffer params) (pdfFileName params)
                                        (invoiceUrl params))
                                 (sendInvoiceEmail e params) w1
              in case sent of
                   Inl err \<Rightarrow> (Inl err, w2)
                 | Inr res \<Rightarrow>
                     (let w3 = updateSendLog Email lastID
                                 (\<lambda>r. r\<lparr>status := ''sent'',
                                         provider_message_id := messageId res,
                                         provider_response := response res\<rparr>) ''sent'' w2;
                          w4 = updateInvoiceSent Email (invoiceId d) w3
                      in (Inr (), w4))))"

definition sendEmailStep ::
  "env \<Rightarrow> settings option \<Rightarrow> preferences option \<Rightarrow> job_data \<Rightarrow>
   (8 word list option \<times> string option \<times> string option) \<Rightarrow> world \<Rightarrow>
   (js_error + unit) \<times> world" where
  "sendEmailStep e st prefs d artifact w =
     (case st of
        None \<Rightarrow> (Inl TypeError, w)
      | Some s \<Rightarrow>
          if email_enabled s \<and> truthy (customerEmail (invoiceData d)) then
            (let (lastID, w1) =
                   insertSendLog Email (invoiceId d) (customerEmail (invoiceData d))
                     (email_provider s) (triggeredBy d) (triggerType d) (now_email e) w;
                 (attempt, w2) = emailTry e s prefs d artifact lastID w1
             in case attempt of
                  Inl err \<Rightarrow>
                    (Inl err,
                     updateSendLog Email lastID
                       (\<lambda>r. r\<lparr>status := ''failed'', error_message := error err,
                               error_code := errorCode err\<rparr>) ''failed'' w2)
                | Inr _ \<Rightarrow> (Inr (), w2))
          else (Inr (), w))"

text \<open>
  Step 3, the same pattern for SMS; its \<open>catch\<close> records the message only and does not
  throw.
\<close>

definition smsParams :: "settings \<Rightarrow> job_data \<Rightarrow> string option \<Rightarrow> sms_params" where
  "smsParams s d url =
     \<lparr>smsTo = customerPhone (invoiceData d),
      smsCustomerName = customerName (invoiceData d),
      smsInvoiceData = invoiceData d,
      smsInvoiceUrl = url, smsSettings = s\<rparr>"

definition smsTry ::
  "env \<Rightarrow> settings \<Rightarrow> job_data \<Rightarrow> string option \<Rightarrow> nat \<Rightarrow> world \<Rightarrow> (js_error + unit) \<times> world" where
  "smsTry e s d url lastID w =
     (let (initialised, w1) = await (ServiceInit Sms) (smsInit e s) w
      in case initialised of
           Inl err \<Rightarrow> (Inl err, w1)
         | Inr _ \<Rightarrow>
             (let params = smsParams s d url;
                  (sent, w2) = await (SendInvoiceSMS (smsInvoiceUrl params))
                                 (sendInvoiceSMS e params) w1
              in case sent of
                   Inl err \<Rightarrow> (Inl err, w2)
                 | Inr res \<Rightarrow>
                     (let w3 = updateSendLog Sms lastID
                                 (\<lambda>r. r\<lparr>status := ''sent'',
                                         provider_message_id := messageId res\<rparr>) ''sent'' w2;
                          w4 = updateInvoiceSent Sms (invoiceId d) w3
                      in (Inr (), w4))))"

definition sendSmsStep ::
  "env \<Rightarrow> settings option \<Rightarrow> preferences option \<Rightarrow> job_data \<Rightarrow> string option \<Rightarrow> world \<Rightarrow>
   (js_error + unit) \<times> world" where
  "sendSmsStep e st prefs d url w =
     (case st of
        None \<Rightarrow> (Inl TypeError, w)
      | Some s \<Rightarrow>
          if sms_enabled s \<and> truthy (customerPhone (invoiceData d)) \<and> optedIn prefs then
            (let (lastID, w1) =
                   insertSendLog Sms (invoiceId d) (customerPhone (invoiceData d))
                     (sms_provider s) (triggeredBy d) (triggerType d) (now_sms e) w;
                 (attempt, w2) = smsTry e s d url lastID w1
             in case attempt of
                  Inl err \<Rightarrow>
                    (Inr (),
                     updateSendLog Sms lastID
                       (\<lambda>r. r\<lparr>status := ''failed'', error_message := error err\<rparr>) ''failed'' w2)
                | Inr _ \<Rightarrow> (Inr (), w2))
          else (Inr (), w))"

text \<open>The body of the outer \<open>try\<close>.\<close>

definition sendInvoiceBody ::
  "runtime \<Rightarrow> env \<Rightarrow> job_data job \<Rightarrow> world \<Rightarrow> (js_error + job_result) \<times> world" where
  "sendInvoiceBody rt e j w =
     (let d = job_payload j;
          st = invoice_settings (db w);
          prefs = loadPreferences (db w) (customerEmail (invoiceData d))
      in if unsubscribed prefs then (Inr (Skipped ''unsubscribed''), w)
         else
           (let w1 = logEvent (Progress 10) w;
                (artifact, w2) = generatePdfStep rt e st d w1;
                w3 = logEvent (Progress 40) w2;
                (emailed, w4) = sendEmailStep e st prefs d artifact w3
            in case emailed of
                 Inl err \<Rightarrow> (Inl err, w4)
               | Inr _ \<Rightarrow>
                   (let w5 = logEvent (Progress 70) w4;
                        (texted, w6) = sendSmsStep e st prefs d (snd (snd artifact)) w5
                    in case texted of
                         Inl err \<Rightarrow> (Inl err, w6)
                       | Inr _ \<Rightarrow>
                           (let w7 = logEvent (Progress 100) w6;
                                w8 = updateSendStatus ''sent'' (invoiceId d) w7
                            in (Inr (Success (invoiceId d) (fst (snd artifact))), w8)))))"

text \<open>
  The processor registered for \<open>send-invoice\<close>: the body, and the outer \<open>catch\<close> that
  marks the invoice failed and throws the error again.
\<close>

definition sendInvoiceProcessor ::
  "runtime \<Rightarrow> env \<Rightarrow> job_data job \<Rightarrow> world \<Rightarrow> (js_error + job_result) \<times> world" where
  "sendInvoiceProcessor rt e j w =
     (case sendInvoiceBody rt e j w of
        (Inl err, w') \<Rightarrow> (Inl err, updateSendStatus ''failed'' (invoiceId (job_payload j)) w')
      | (Inr res, w') \<Rightarrow> (Inr res, w'))"

section \<open>Routes (src/routes/invoices.js)\<close>

datatype body =
    AlreadySent send_log
  | Queued string
  | ErrorMessage string
  | PdfFile string string
  | Redirect "string option"

datatype http_response = Json nat body | Next js_error

text \<open>
  \<open>ORDER BY \<dots> DESC LIMIT 1\<close>: a row with the largest key; among equal keys the model
  takes the first in table order.
\<close>

fun latest :: "('a \<Rightarrow> int) \<Rightarrow> 'a list \<Rightarrow> 'a option" where
  "latest key [] = None"
| "latest key (r # rs) =
     (case latest key rs of
        None \<Rightarrow> Some r
      | Some m \<Rightarrow> if key m > key r then Some m else Some r)"

text \<open>
  The idempotency query of \<open>POST /:id/send\<close>; \<open>now\<close> is the database clock in
  seconds, \<open>datetime('now', '-1 hour')\<close> is \<open>now - 3600\<close>.
\<close>

definition recentSend :: "database \<Rightarrow> int \<Rightarrow> int \<Rightarrow> send_log option" where
  "recentSend d i now =
     latest created_at
       (filter (\<lambda>r. invoice_id r = i \<and> send_type r = ''email'' \<and>
                    (status r = ''sent'' \<or> status r = ''delivered'') \<and>
                    created_at r > now - 3600) (send_logs d))"

text \<open>
  \<open>POST /:id/send\<close> after validation, with \<open>invoiceId = parseInt(req.params.id)\<close>;
  \<open>user\<close> is \<open>req.user?.id\<close>, \<open>dateNow\<close> the clock that names the job.
\<close>

definition postSend ::
  "(job_data, job_result, world) MockQueue \<Rightarrow> string option \<Rightarrow> int \<Rightarrow> int \<Rightarrow> int \<Rightarrow> world \<Rightarrow>
   http_response \<times> (job_data, job_result, world) MockQueue \<times> world" where
  "postSend q user i now dateNow w =
     (case recentSend (db w) i now of
        Some sendLog \<Rightarrow> (Json 200 (AlreadySent sendLog), q, w)
      | None \<Rightarrow>
          (case invoices (db w) i of
             None \<Rightarrow> (Json 404 (ErrorMessage ''Invoice not found''), q, w)
           | Some row \<Rightarrow>
               (case add q ''send-invoice''
                       \<lparr>invoiceId = i, invoiceData = invoice_data.truncate row,
                        triggeredBy = Some (orString user ''manual''),
                        triggerType = Some ''manual''\<rparr> dateNow w of
                  (Inl err, q', w') \<Rightarrow> (Next err, q', w')
                | (Inr j, q', w') \<Rightarrow> (Json 200 (Queued (queued_id j)), q', w'))))"

text \<open>
  \<open>GET /:id/pdf\<close>: the token of the query string is checked against the numeric
  invoice id before anything is looked up.
\<close>

definition getPdf :: "runtime \<Rightarrow> int \<Rightarrow> database \<Rightarrow> int \<Rightarrow> string option \<Rightarrow> http_response" where
  "getPdf rt now d i token =
     (if \<not> truthy token \<or> \<not> verifySignedUrl rt now (orString token []) (JNum i)
      then Json 403 (ErrorMessage ''Invalid or expired token'')
      else (case latest generated_at (filter (\<lambda>f. file_invoice_id f = i) (invoice_files d)) of
              None \<Rightarrow> Json 404 (ErrorMessage ''PDF not found'')
            | Some f \<Rightarrow>
                if storage_type f = ''local'' then Json 200 (PdfFile (file_path f) (file_name f))
                else Json 302 (Redirect (signed_url f))))"

section \<open>Reading a trace\<close>

text \<open>The percentages reported through \<open>job.progress\<close>, in order.\<close>

definition progressReports :: "event list \<Rightarrow> nat list" where
  "progressReports tr = concat (map (\<lambda>ev. case ev of Progress n \<Rightarrow> [n] | _ \<Rightarrow> []) tr)"

text \<open>
  The channel a call belongs to, and the dispatch call of a channel
  (\<open>sendInvoiceEmail\<close>, \<open>sendInvoiceSMS\<close>).
\<close>

fun callChannel :: "call \<Rightarrow> channel option" where
  "callChannel (ServiceInit ch) = Some ch"
| "callChannel (SendInvoiceEmail b f u) = Some Email"
| "callChannel (SendInvoiceSMS u) = Some Sms"
| "callChannel GenerateInvoicePDF = None"
| "callChannel SavePDF = None"


text \<open>The events of one channel: its send-log statements and the calls into its service.\<close>

fun concerns :: "channel \<Rightarrow> event \<Rightarrow> bool" where
  "concerns ch (Run (InsertSendLog c i)) = (c = ch)"
| "concerns ch (Run (UpdateSendLog c i st)) = (c = ch)"
| "concerns ch (Run (UpdateInvoiceSent c)) = (c = ch)"
| "concerns ch (Run InsertInvoiceFile) = False"
| "concerns ch (Run (UpdateSendStatus st)) = False"
| "concerns ch (Call c) = (callChannel c = Some ch)"
| "concerns ch (Returned c) = (callChannel c = Some ch)"
| "concerns ch (Threw c) = (callChannel c = Some ch)"
| "concerns ch (Progress n) = False"

text \<open>
  The trace of a run, written out from the outcomes of the collaborators. The events of
  the PDF step, of one pass through a channel's step (\<open>i\<close> is the row id of the
  insert, \<open>c\<close> the dispatch call), and of a whole run that found its settings and a
  customer who has not unsubscribed.
\<close>

definition pdfEvents :: "event set" where
  "pdfEvents =
     {Call GenerateInvoicePDF, Returned GenerateInvoicePDF, Threw GenerateInvoicePDF,
      Progress 25, Call SavePDF, Returned SavePDF, Threw SavePDF, Run InsertInvoiceFile}"

definition pdfStepEvents :: "env \<Rightarrow> settings \<Rightarrow> job_data \<Rightarrow> event list" where
  "pdfStepEvents e s d =
     (case generateInvoicePDF e (invoiceData d) (companyData s) of
        Inl _ \<Rightarrow> [Call GenerateInvoicePDF, Threw GenerateInvoicePDF]
      | Inr buffer \<Rightarrow>
          [Call GenerateInvoicePDF, Returned GenerateInvoicePDF, Progress 25, Call SavePDF] @
          (case savePDF e buffer (''invoice-'' @ invoiceNumber (invoiceData d) @ ''.pdf'') of
             Inl _ \<Rightarrow> [Threw SavePDF]
           | Inr _ \<Rightarrow> [Returned SavePDF, Run InsertInvoiceFile]))"

definition channelEvents ::
  "channel \<Rightarrow> nat \<Rightarrow> call \<Rightarrow> bool \<Rightarrow> js_error + unit \<Rightarrow> js_error + send_result \<Rightarrow> event list" where
  "channelEvents ch i c attempted initialised sent =
     (if \<not> attempted then []
      else [Run (InsertSendLog ch i), Call (ServiceInit ch)] @
        (case initialised of
           Inl _ \<Rightarrow> [Threw (ServiceInit ch), Run (UpdateSendLog ch i ''failed'')]
         | Inr _ \<Rightarrow>
             [Returned (ServiceInit ch), Call c] @
             (case sent of
                Inl _ \<Rightarrow> [Threw c, Run (UpdateSendLog ch i ''failed'')]
              | Inr _ \<Rightarrow> [Returned c, Run (UpdateSendLog ch i ''sent''),
                           Run (UpdateInvoiceSent ch)])))"

definition emailAttempted :: "settings \<Rightarrow> job_data \<Rightarrow> bool" where
  "emailAttempted s d = (email_enabled s \<and> truthy (customerEmail (invoiceData d)))"

definition smsAttempted :: "settings \<Rightarrow> preferences option \<Rightarrow> job_data \<Rightarrow> bool" where
  "smsAttempted s prefs d =
     (sms_enabled s \<and> truthy (customerPhone (invoiceData d)) \<and> optedIn prefs)"

definition emailOutcome ::
  "env \<Rightarrow> settings \<Rightarrow> preferences option \<Rightarrow> job_data \<Rightarrow>
   (8 word list option \<times> string option \<times> string option) \<Rightarrow> js_error + unit" where
  "emailOutcome e s prefs d a =
     (if \<not> emailAttempted s d then Inr ()
      else case emailInit e s of
             Inl err \<Rightarrow> Inl err
           | Inr _ \<Rightarrow>
               (case sendInvoiceEmail e (emailParams e s prefs d a) of
                  Inl err \<Rightarrow> Inl err
                | Inr _ \<Rightarrow> Inr ()))"

definition runEvents ::
  "env \<Rightarrow> settings \<Rightarrow> preferences option \<Rightarrow> job_data \<Rightarrow>
   (8 word list option \<times> string option \<times> string option) \<Rightarrow> nat \<Rightarrow> nat \<Rightarrow> event list" where
  "runEvents e s prefs d a i1 i2 =
     Progress 10 # pdfStepEvents e s d @
     Progress 40 #
     channelEvents Email i1 (SendInvoiceEmail (fst a) (fst (snd a)) (snd (snd a)))
       (emailAttempted s d) (emailInit e s) (sendInvoiceEmail e (emailParams e s prefs d a)) @
     (case emailOutcome e s prefs d a of
        Inl _ \<Rightarrow> [Run (UpdateSendStatus ''failed'')]
      | Inr _ \<Rightarrow>
          Progress 70 #
          channelEvents Sms i2 (SendInvoiceSMS (snd (snd a)))
            (smsAttempted s prefs d) (smsInit e s) (sendInvoiceSMS e (smsParams s d (snd (snd a)))) @
          [Progress 100, Run (UpdateSendStatus ''sent'')])"

text \<open>
  The stages of the PDF step: the events of rendering, and those of storing the file
  (saving it and recording it, with the link minted for it, in \<open>invoice_files\<close>).
\<close>

definition renderEvents :: "event set" where
  "renderEvents =
     {Call GenerateInvoicePDF, Returned GenerateInvoicePDF, Threw GenerateInvoicePDF}"

definition storeEvents :: "event set" where
  "storeEvents = {Call SavePDF, Returned SavePDF, Threw SavePDF, Run InsertInvoiceFile}"








text \<open>Whether the settings were found and PDF rendering returned a buffer.\<close>

definition rendered :: "env \<Rightarrow> settings option \<Rightarrow> job_data \<Rightarrow> bool" where
  "rendered e st d =
     (case st of
        None \<Rightarrow> False
      | Some s \<Rightarrow> (case generateInvoicePDF e (invoiceData d) (companyData s) of
                     Inl _ \<Rightarrow> False | Inr _ \<Rightarrow> True))"

section \<open>A concrete configuration\<close>

text \<open>
  Base64 after RFC 4648 (standard alphabet, padded), as one runtime that satisfies
  \<open>base64_roundtrip\<close>, together with a stand-in keyed digest (not SHA-256: the
  results below hold for every digest function).
\<close>

definition b64chars :: string where
  "b64chars = ''ABCDEFGHIJKLMNOPQRSTUVWXYZabcdefghijklmnopqrstuvwxyz0123456789+/''"

definition b64char :: "nat \<Rightarrow> char" where
  "b64char n = b64chars ! n"

definition b64index :: "char \<Rightarrow> nat" where
  "b64index c = length (takeWhile (\<lambda>x. x \<noteq> c) b64chars)"

fun base64Encode :: "string \<Rightarrow> string" where
  "base64Encode (a # b # c # r) =
     (let x = of_char a :: nat; y = of_char b :: nat; z = of_char c :: nat
      in b64char (x div 4) # b64char (x mod 4 * 16 + y div 16) #
         b64char (y mod 16 * 4 + z div 64) # b64char (z mod 64) # base64Encode r)"
| "base64Encode [a, b] =
     (let x = of_char a :: nat; y = of_char b :: nat
      in [b64char (x div 4), b64char (x mod 4 * 16 + y div 16), b64char (y mod 16 * 4), CHR ''=''])"
| "base64Encode [a] =
     (let x = of_char a :: nat
      in [b64char (x div 4), b64char (x mod 4 * 16), CHR ''='', CHR ''=''])"
| "base64Encode [] = []"

fun base64Decode :: "string \<Rightarrow> string" where
  "base64Decode (p # q # r # s # rest) =
     (let i = b64index p; j = b64index q; k = b64index r; l = b64index s
      in if r = CHR ''='' then [char_of (i * 4 + j div 16)]
         else if s = CHR ''='' then [char_of (i * 4 + j div 16), char_of (j mod 16 * 16 + k div 4)]
         else char_of (i * 4 + j div 16) # char_of (j mod 16 * 16 + k div 4) #
              char_of (k mod 4 * 64 + l) # base64Decode rest)"
| "base64Decode rest = []"

definition sampleDigest :: "string \<Rightarrow> string \<Rightarrow> 8 word list" where
  "sampleDigest key msg = map of_char (key @ msg)"

definition sampleRuntime :: runtime where
  "sampleRuntime =
     \<lparr>SECRET = ''default-secret-change-in-production'', hmac_sha256 = sampleDigest,
      base64_encode = base64Encode, base64_decode = base64Decode\<rparr>"

text \<open>
  Invoice INV-1001 with e-mail and SMS enabled, a customer who opted in to SMS, and
  collaborators that all succeed; then the same with one collaborator failing.
\<close>

definition sampleSettings :: settings where
  "sampleSettings =
     \<lparr>company_name = None, company_email = None, company_address = None, company_phone = None,
      email_enabled = True, email_provider = Some ''sendgrid'',
      email_from = Some ''noreply@finverse.info'',
      sms_enabled = True, sms_provider = Some ''twilio'', signed_url_expiry_days = Some 7\<rparr>"

definition sampleInvoice :: invoice where
  "sampleInvoice =
     \<lparr>invoiceNumber = ''INV-1001'', customerName = ''Ada'',
      customerEmail = Some ''ada@example.com'', customerPhone = Some ''555-0100'',
      send_status = ''pending'', email_sent = 0, sms_sent = 0\<rparr>"

definition sampleData :: job_data where
  "sampleData =
     \<lparr>invoiceId = 1, invoiceData = invoice_data.truncate sampleInvoice,
      triggeredBy = Some ''manual'', triggerType = Some ''manual''\<rparr>"

definition sampleJob :: "job_data job" where
  "sampleJob = \<lparr>job_id = ''1700000000000'', job_payload = sampleData\<rparr>"

definition samplePreferences :: preferences where
  "samplePreferences =
     \<lparr>email_unsubscribed = False, sms_opt_in = True, unsubscribe_token = Some ''tok''\<rparr>"

definition sampleDatabase :: database where
  "sampleDatabase =
     \<lparr>invoices = [1 \<mapsto> sampleInvoice], invoice_settings = Some sampleSettings,
      customer_preferences = Some [''ada@example.com'' \<mapsto> samplePreferences],
      send_logs = [], invoice_files = []\<rparr>"

definition sampleWorld :: world where
  "sampleWorld = \<lparr>db = sampleDatabase, trace = [], history = []\<rparr>"

definition sampleEnv :: env where
  "sampleEnv =
     \<lparr>appUrl = ''http://localhost:3000'',
      generateInvoicePDF = (\<lambda>i c. Inr [37, 80, 68, 70]),
      savePDF = (\<lambda>b n. Inr \<lparr>fileName = n, filePath = ''storage/'' @ n, fileSize = length b,
                               fileHash = ''00'', storageType = ''local''\<rparr>),
      emailInit = (\<lambda>s. Inr ()),
      emailTransmit = (\<lambda>p. Inr \<lparr>messageId = Some ''m-1'', response = Some ''{}''\<rparr>),
      smsInit = (\<lambda>s. Inr ()),
      parsePhoneNumber = (\<lambda>p. Some (''+1'' @ p)),
      smsTransmit = (\<lambda>n p. Inr \<lparr>messageId = Some ''s-1'', response = None\<rparr>),
      Date_now = 1700000000000, now_file = 1700000000, now_email = 1700000001,
      now_sms = 1700000002\<rparr>"

definition renderFails :: env where
  "renderFails = sampleEnv\<lparr>generateInvoicePDF := (\<lambda>i c. Inl (Error ''render failed''))\<rparr>"

definition emailDown :: env where
  "emailDown = sampleEnv\<lparr>emailTransmit := (\<lambda>p. Inl (Error ''connection refused''))\<rparr>"

definition phoneMalformed :: env where
  "phoneMalformed = sampleEnv\<lparr>parsePhoneNumber := (\<lambda>p. None)\<rparr>"


definition emailDisabled :: world where
  "emailDisabled =
     sampleWorld\<lparr>db := sampleDatabase\<lparr>invoice_settings :=
        Some (sampleSettings\<lparr>email_enabled := False\<rparr>)\<rparr>\<rparr>"

definition unsubscribedWorld :: world where
  "unsubscribedWorld =
     sampleWorld\<lparr>db := sampleDatabase\<lparr>customer_preferences :=
        Some [''ada@example.com'' \<mapsto> samplePreferences\<lparr>email_unsubscribed := True\<rparr>]\<rparr>\<rparr>"

definition sampleQueue :: "(job_data, job_result, world) MockQueue" where
  "sampleQueue =
     process (mockQueue ''invoice-notifications'') ''send-invoice'' 5
       (sendInvoiceProcessor sampleRuntime sampleEnv)"

definition failingQueue :: "(job_data, job_result, world) MockQueue" where
  "failingQueue =
     process (mockQueue ''invoice-notifications'') ''send-invoice'' 5
       (sendInvoiceProcessor sampleRuntime emailDown)"

text \<open>A database in which the e-mail for invoice 1 went out at 1700000001.\<close>

definition sentLog :: send_log where
  "sentLog =
     (sendingRow Email 1 1 (Some ''ada@example.com'') (Some ''sendgrid'') (Some ''manual'')
        (Some ''manual'') 1700000001)\<lparr>status := ''sent''\<rparr>"

definition alreadySent :: world where
  "alreadySent = sampleWorld\<lparr>db := sampleDatabase\<lparr>send_logs := [sentLog]\<rparr>\<rparr>"


section \<open>Properties\<close>

subsection \<open>Numbers and strings\<close>

lemma digit_char_props:
  assumes "d < 10"
  shows "radixDigit 10 (char_of (48 + d)) = Some d"
    and "\<not> isWhiteSpace (char_of (48 + d))"
    and "char_of (48 + d) \<noteq> CHR ''-''" and "char_of (48 + d) \<noteq> CHR ''+''"
    and "char_of (48 + d) \<noteq> CHR ''x''" and "char_of (48 + d) \<noteq> CHR ''X''"
    and "char_of (48 + d) \<noteq> CHR '':''"
proof -
  have m: "(48 + d) mod 256 = 48 + d" using assms by simp
  have oc: "of_char (char_of (48 + d)) = 48 + d" using m by simp
  show "radixDigit 10 (char_of (48 + d)) = Some d"
    using assms oc by (simp add: radixDigit_def digitValue_def Let_def)
  show "\<not> isWhiteSpace (char_of (48 + d))"
    using assms oc by (simp add: isWhiteSpace_def)
  have ne: "\<And>c. of_char c \<noteq> 48 + d \<Longrightarrow> char_of (48 + d) \<noteq> c"
    using oc by auto
  show "char_of (48 + d) \<noteq> CHR ''-''" using assms by (intro ne) simp
  show "char_of (48 + d) \<noteq> CHR ''+''" using assms by (intro ne) simp
  show "char_of (48 + d) \<noteq> CHR ''x''" using assms by (intro ne) simp
  show "char_of (48 + d) \<noteq> CHR ''X''" using assms by (intro ne) simp
  show "char_of (48 + d) \<noteq> CHR '':''" using assms by (intro ne) simp
qed

lemma digits_neq_Nil: "digits n \<noteq> []"
  by (subst digits.simps) simp

lemma parseDigits_digits:
  "parseDigits 10 (digits n @ cs) acc =
     parseDigits 10 cs (Some ((case acc of None \<Rightarrow> 0 | Some a \<Rightarrow> a) * 10 ^ length (digits n) + n))"
proof (induction n arbitrary: cs acc rule: digits.induct)
  case (1 n)
  show ?case
  proof (cases "n < 10")
    case True
    then show ?thesis
      by (subst (1 2) digits.simps) (simp add: digit_char_props)
  next
    case False
    have d: "n mod 10 < 10" by simp
    have "parseDigits 10 (digits n @ cs) acc
        = parseDigits 10 (digits (n div 10) @ (char_of (48 + n mod 10) # cs)) acc"
      using False by (subst digits.simps) simp
    also have "\<dots> = parseDigits 10 (char_of (48 + n mod 10) # cs)
        (Some ((case acc of None \<Rightarrow> 0 | Some a \<Rightarrow> a) * 10 ^ length (digits (n div 10)) + n div 10))"
      using "1.IH" [OF False] by simp
    also have "\<dots> = parseDigits 10 cs
        (Some (((case acc of None \<Rightarrow> 0 | Some a \<Rightarrow> a) * 10 ^ length (digits (n div 10)) + n div 10) * 10 + n mod 10))"
      by (simp add: digit_char_props(1) [OF d])
    also have "length (digits n) = Suc (length (digits (n div 10)))"
      using False by (subst digits.simps) simp
    ultimately show ?thesis
      by (simp add: algebra_simps)
  qed
qed

lemma split_no_sep: "sep \<notin> set s \<Longrightarrow> split sep s = [s]"
  by (induction s) auto

lemma split_append_sep:
  "sep \<notin> set a \<Longrightarrow> split sep (a @ sep # rest) = a # split sep rest"
  by (induction a) (auto split: list.splits)

lemma colon_notin_digits: "CHR '':'' \<notin> set (digits n)"
proof (induction n rule: digits.induct)
  case (1 n)
  show ?case
  proof (cases "n < 10")
    case True
    then show ?thesis using digit_char_props(7) [of n] by (subst digits.simps) auto
  next
    case False
    have "n mod 10 < 10" by simp
    then have "char_of (48 + n mod 10) \<noteq> CHR '':''" by (rule digit_char_props(7))
    with False "1.IH" show ?thesis by (subst digits.simps) auto
  qed
qed

lemma colon_notin_numToString: "CHR '':'' \<notin> set (numToString n)"
  by (simp add: numToString_def colon_notin_digits)

lemma hexDigit_neq_colon: "n < 16 \<Longrightarrow> hexDigit n \<noteq> CHR '':''"
proof -
  assume a: "n < 16"
  have "of_char (hexDigit n) \<noteq> (58 :: nat)"
    using a by (auto simp: hexDigit_def)
  then show ?thesis by auto
qed

lemma colon_notin_digestHex: "CHR '':'' \<notin> set (digestHex bs)"
proof (induction bs)
  case Nil
  show ?case by (simp add: digestHex_def)
next
  case (Cons b bs)
  have "unat b < 2 ^ 8" using unsigned_less [of b] by simp
  then have "unat b div 16 < 16" by simp
  then have hi: "CHR '':'' \<noteq> hexDigit (unat b div 16)"
    using hexDigit_neq_colon by metis
  have "unat b mod 16 < 16" by simp
  then have lo: "CHR '':'' \<noteq> hexDigit (unat b mod 16)"
    using hexDigit_neq_colon by metis
  have "digestHex (b # bs) =
      hexDigit (unat b div 16) # hexDigit (unat b mod 16) # digestHex bs"
    by (simp add: digestHex_def)
  with hi lo Cons.IH show ?case by simp
qed

lemma digits_head:
  "\<exists>(d::nat) cs. d < 10 \<and> digits n = char_of (48 + d) # cs \<and>
     (cs = [] \<or> (\<exists>(e::nat) ds. e < 10 \<and> cs = char_of (48 + e) # ds))"
proof (induction n rule: digits.induct)
  case (1 n)
  show ?case
  proof (cases "n < 10")
    case True
    then show ?thesis by (subst digits.simps) auto
  next
    case False
    from "1.IH" [OF False] obtain d :: nat and cs where
      d: "d < 10" "digits (n div 10) = char_of (48 + d) # cs"
         "cs = [] \<or> (\<exists>(e::nat) ds. e < 10 \<and> cs = char_of (48 + e) # ds)" by blast
    have m: "n mod 10 < 10" by simp
    have "digits n = char_of (48 + d) # (cs @ [char_of (48 + n mod 10)])"
      using False d(2) by (subst digits.simps) simp
    moreover have "\<exists>(e::nat) ds. e < 10 \<and> cs @ [char_of (48 + n mod 10)] = char_of (48 + e) # ds"
    proof (cases cs)
      case Nil
      then show ?thesis using m by blast
    next
      case (Cons c cs')
      then show ?thesis using d(3) by auto
    qed
    ultimately show ?thesis using d(1) by blast
  qed
qed

lemma parseIntStr_digits: "parseIntStr (digits n) = Some (int n)"
proof -
  obtain d :: nat and cs where d: "d < 10" "digits n = char_of (48 + d) # cs"
      "cs = [] \<or> (\<exists>(e::nat) ds. e < 10 \<and> cs = char_of (48 + e) # ds)"
    using digits_head by blast
  have dw: "dropWhile isWhiteSpace (digits n) = digits n"
    using d by (simp add: digit_char_props)
  have ss: "stripSign (digits n) = (1, digits n)"
    using d by (simp add: digit_char_props)
  have sp: "stripPrefix (digits n) = (10, digits n)"
    using d by (auto simp: digit_char_props)
  have "parseDigits 10 (digits n) None = Some n"
    using parseDigits_digits [of n "[]" None] by simp
  then show ?thesis
    by (simp add: parseIntStr_def dw ss sp)
qed

lemma parseIntStr_minus_digits: "parseIntStr (CHR ''-'' # digits n) = Some (- int n)"
proof -
  obtain d :: nat and cs where d: "d < 10" "digits n = char_of (48 + d) # cs"
      "cs = [] \<or> (\<exists>(e::nat) ds. e < 10 \<and> cs = char_of (48 + e) # ds)"
    using digits_head by blast
  have w: "\<not> isWhiteSpace CHR ''-''" by (simp add: isWhiteSpace_def)
  have sp: "stripPrefix (digits n) = (10, digits n)"
    using d by (auto simp: digit_char_props)
  have "parseDigits 10 (digits n) None = Some n"
    using parseDigits_digits [of n "[]" None] by simp
  then show ?thesis
    by (simp add: parseIntStr_def w sp)
qed

lemma parseIntStr_numToString: "parseIntStr (numToString n) = Some n"
  by (simp add: numToString_def parseIntStr_digits parseIntStr_minus_digits)

lemma parseInt_JNum: "parseInt (JNum n) = Some n"
  by (simp add: parseInt_def parseIntStr_numToString)

subsection \<open>The base64 codec of the concrete configuration\<close>

lemma length_b64chars: "length b64chars = 64"
  by (simp add: b64chars_def)

lemma distinct_b64chars: "distinct b64chars"
  by (simp add: b64chars_def)

lemma pad_notin_b64chars: "CHR ''='' \<notin> set b64chars"
  by (simp add: b64chars_def)

lemma index_nth_distinct:
  "distinct xs \<Longrightarrow> n < length xs \<Longrightarrow> length (takeWhile (\<lambda>x. x \<noteq> xs ! n) xs) = n"
proof (induction xs arbitrary: n)
  case Nil
  then show ?case by simp
next
  case (Cons a xs)
  show ?case
  proof (cases n)
    case 0
    then show ?thesis by simp
  next
    case (Suc m)
    with Cons.prems have "xs ! m \<in> set xs" "a \<notin> set xs" by auto
    then have "a \<noteq> xs ! m" by auto
    with Cons Suc show ?thesis by simp
  qed
qed

lemma b64index_b64char: "n < 64 \<Longrightarrow> b64index (b64char n) = n"
  unfolding b64index_def b64char_def
  by (rule index_nth_distinct) (simp_all add: distinct_b64chars length_b64chars)

lemma b64char_not_pad: "n < 64 \<Longrightarrow> b64char n \<noteq> CHR ''=''"
  unfolding b64char_def using pad_notin_b64chars length_b64chars
  by (metis nth_mem)

lemma of_char_less_256: "(of_char c :: nat) < 256"
proof -
  have "(of_char c :: nat) = of_char (char_of (of_char c :: nat))" by simp
  also have "\<dots> = (of_char c :: nat) mod 256" by (simp only: of_char_of)
  finally have "(of_char c :: nat) = of_char c mod 256" .
  then show ?thesis by (metis mod_less_divisor zero_less_numeral)
qed

lemma sextets:
  fixes x y z :: nat
  assumes "x < 256" "y < 256" "z < 256"
  shows "x div 4 < 64" "x mod 4 * 16 + y div 16 < 64" "y mod 16 * 4 + z div 64 < 64"
    "z mod 64 < 64" "y mod 16 * 4 < 64" "x mod 4 * 16 < 64"
  using assms by auto

lemma regroup:
  fixes x y z :: nat
  assumes "x < 256" "y < 256" "z < 256"
  shows "x div 4 * 4 + (x mod 4 * 16 + y div 16) div 16 = x"
    "(x mod 4 * 16 + y div 16) mod 16 * 16 + (y mod 16 * 4 + z div 64) div 4 = y"
    "(y mod 16 * 4 + z div 64) mod 4 * 64 + z mod 64 = z"
    "x div 4 * 4 + (x mod 4 * 16) div 16 = x"
    "(x mod 4 * 16 + y div 16) mod 16 * 16 + (y mod 16 * 4) div 4 = y"
proof -
  have y16: "y div 16 < 16" using assms by simp
  have z64: "z div 64 < 4" using assms by simp
  have a: "(x mod 4 * 16 + y div 16) div 16 = x mod 4" using y16 by simp
  have b: "(x mod 4 * 16 + y div 16) mod 16 = y div 16" using y16 by simp
  have c: "(y mod 16 * 4 + z div 64) div 4 = y mod 16" using z64 by simp
  have d: "(y mod 16 * 4 + z div 64) mod 4 = z div 64" using z64 by simp
  show "x div 4 * 4 + (x mod 4 * 16 + y div 16) div 16 = x" by (simp only: a) simp
  show "(x mod 4 * 16 + y div 16) mod 16 * 16 + (y mod 16 * 4 + z div 64) div 4 = y"
    by (simp only: b c) simp
  show "(y mod 16 * 4 + z div 64) mod 4 * 64 + z mod 64 = z" by (simp only: d) simp
  show "x div 4 * 4 + (x mod 4 * 16) div 16 = x" by simp
  show "(x mod 4 * 16 + y div 16) mod 16 * 16 + (y mod 16 * 4) div 4 = y"
    by (simp only: b) simp
qed

lemma decode_quad:
  assumes "i < 64" "j < 64" "k < 64" "l < 64"
  shows "base64Decode (b64char i # b64char j # b64char k # b64char l # rest) =
    char_of (i * 4 + j div 16) # char_of (j mod 16 * 16 + k div 4) #
    char_of (k mod 4 * 64 + l) # base64Decode rest"
  using assms by (simp add: Let_def b64index_b64char b64char_not_pad)

lemma decode_pad1:
  assumes "i < 64" "j < 64" "k < 64"
  shows "base64Decode [b64char i, b64char j, b64char k, CHR ''=''] =
    [char_of (i * 4 + j div 16), char_of (j mod 16 * 16 + k div 4)]"
  using assms by (simp add: Let_def b64index_b64char b64char_not_pad)

lemma decode_pad2:
  assumes "i < 64" "j < 64"
  shows "base64Decode [b64char i, b64char j, CHR ''='', CHR ''=''] = [char_of (i * 4 + j div 16)]"
  using assms by (simp add: Let_def b64index_b64char)

lemma base64_decode_encode: "base64Decode (base64Encode s) = s"
proof (induction s rule: base64Encode.induct)
  case (1 a b c r)
  define x y z :: nat where "x = of_char a" and "y = of_char b" and "z = of_char c"
  have lt: "x < 256" "y < 256" "z < 256"
    by (simp_all add: x_def y_def z_def of_char_less_256)
  have enc: "base64Encode (a # b # c # r) =
      b64char (x div 4) # b64char (x mod 4 * 16 + y div 16) #
      b64char (y mod 16 * 4 + z div 64) # b64char (z mod 64) # base64Encode r"
    by (simp only: base64Encode.simps Let_def x_def y_def z_def)
  have ih: "base64Decode (base64Encode r) = r"
    using 1 by simp
  have "base64Decode (base64Encode (a # b # c # r)) = char_of x # char_of y # char_of z # r"
    by (simp only: enc decode_quad [OF sextets(1-4) [OF lt]] regroup(1-3) [OF lt] ih)
  then show ?case
    by (simp add: x_def y_def z_def)
next
  case (2 a b)
  define x y :: nat where "x = of_char a" and "y = of_char b"
  have lt: "x < 256" "y < 256" "y < 256"
    by (simp_all add: x_def y_def of_char_less_256)
  have enc: "base64Encode [a, b] =
      [b64char (x div 4), b64char (x mod 4 * 16 + y div 16), b64char (y mod 16 * 4), CHR ''='']"
    by (simp only: base64Encode.simps Let_def x_def y_def)
  have "base64Decode (base64Encode [a, b]) = [char_of x, char_of y]"
    by (simp only: enc decode_pad1 [OF sextets(1,2,5) [OF lt]] regroup(1,5) [OF lt])
  then show ?case
    by (simp add: x_def y_def)
next
  case (3 a)
  define x :: nat where "x = of_char a"
  have lt: "x < 256" "x < 256" "x < 256"
    by (simp_all add: x_def of_char_less_256)
  have enc: "base64Encode [a] = [b64char (x div 4), b64char (x mod 4 * 16), CHR ''='', CHR ''='']"
    by (simp only: base64Encode.simps Let_def x_def)
  have "base64Decode (base64Encode [a]) = [char_of x]"
    by (simp only: enc decode_pad2 [OF sextets(1,6) [OF lt]] regroup(4) [OF lt])
  then show ?case
    by (simp add: x_def)
next
  case 4
  show ?case by simp
qed

subsection \<open>Tokens\<close>

lemma split_minted:
  assumes "CHR '':'' \<notin> set a" "CHR '':'' \<notin> set b" "CHR '':'' \<notin> set c"
  shows "split CHR '':'' (a @ '':'' @ b @ '':'' @ c) = [a, b, c]"
  using assms by (simp add: split_append_sep split_no_sep)

lemma decoded_minted:
  assumes "base64_roundtrip rt"
  shows "base64_decode rt (generateSignedUrl rt now rid days) =
    toString rid @ '':'' @ numToString (now + days * 24 * 60 * 60 * 1000) @ '':'' @
    hmacHex rt (toString rid @ '':'' @ numToString (now + days * 24 * 60 * 60 * 1000))"
  using assms by (simp add: generateSignedUrl_def base64_roundtrip_def Let_def)

lemma verify_minted:
  assumes rt: "base64_roundtrip rt" and c: "CHR '':'' \<notin> set (toString rid)"
  shows "verifySignedUrl rt now' (generateSignedUrl rt now rid days) rid' =
    (\<not> strictNotEqualNum (parseIntStr (toString rid)) (parseInt rid') \<and>
     \<not> now' > now + days * 24 * 60 * 60 * 1000)"
proof -
  let ?exp = "numToString (now + days * 24 * 60 * 60 * 1000)"
  let ?sig = "hmacHex rt (toString rid @ '':'' @ ?exp)"
  have parts: "split CHR '':'' (base64_decode rt (generateSignedUrl rt now rid days)) =
      [toString rid, ?exp, ?sig]"
    using split_minted [OF c colon_notin_numToString, of "?sig"]
    by (simp add: decoded_minted [OF rt] hmacHex_def colon_notin_digestHex)
  show ?thesis
    by (simp add: verifySignedUrl_def parts element_def Let_def parseInt_def
        parseIntStr_numToString greaterThanNum_def)
qed

lemma parseIntStr_slash: "parseIntStr (CHR ''/'' # s) = None"
  by (cases s) (simp_all add: parseIntStr_def isWhiteSpace_def radixDigit_def digitValue_def)

lemma colon_notin_pdfPath: "CHR '':'' \<notin> set (pdfPath i)"
  by (simp add: pdfPath_def colon_notin_numToString)

lemma parseIntStr_pdfPath: "parseIntStr (pdfPath i) = None"
  by (simp add: pdfPath_def parseIntStr_slash)

lemma worker_token_rejected:
  assumes "base64_roundtrip rt"
  shows "verifySignedUrl rt now' (generateSignedUrl rt now (JStr (pdfPath i)) days) rid' = False"
  using verify_minted [OF assms, of "JStr (pdfPath i)"]
  by (simp add: colon_notin_pdfPath parseIntStr_pdfPath strictNotEqualNum_def)

lemma numeric_token:
  assumes "base64_roundtrip rt"
  shows "verifySignedUrl rt now' (generateSignedUrl rt now (JNum i) days) rid' =
    (parseInt rid' = Some i \<and> now' \<le> now + days * 24 * 60 * 60 * 1000)"
  using verify_minted [OF assms, of "JNum i"]
  by (auto simp: colon_notin_numToString parseIntStr_numToString strictNotEqualNum_def
      split: option.splits)

subsection \<open>Statements on the send log\<close>

lemma foldr_max_ge: "r \<in> set logs \<Longrightarrow> log_id r \<le> foldr max (map log_id logs) 0"
  by (induction logs) auto

lemma log_id_less_nextId: "r \<in> set logs \<Longrightarrow> log_id r < nextId logs"
  using foldr_max_ge [of r logs] by (simp add: nextId_def)

lemma update_older_rows:
  "map (\<lambda>r. if log_id r = nextId logs then f r else r) logs = logs"
proof (rule map_idI)
  fix r assume "r \<in> set logs"
  then have "log_id r \<noteq> nextId logs" using log_id_less_nextId by fastforce
  then show "(if log_id r = nextId logs then f r else r) = r" by simp
qed

text \<open>
  What the event \<open>Run (InsertSendLog ch n)\<close> stands for: it is logged by the insert alone,
  and the row it adds to \<open>send_logs\<close> has id \<open>n\<close>, the channel's send type and status
  \<open>sending\<close>; the rows that were there are kept.
\<close>

lemma insertSendLog_row:
  "insertSendLog ch i recip prov trigBy trigType now w = (n, w') \<Longrightarrow>
     trace w' = trace w @ [Run (InsertSendLog ch n)] \<and>
     (\<exists>row. send_logs (db w') = send_logs (db w) @ [row] \<and> log_id row = n \<and>
        send_type row = sendType ch \<and> status row = ''sending'' \<and>
        n \<notin> log_id ` set (send_logs (db w)))"
proof -
  assume ins: "insertSendLog ch i recip prov trigBy trigType now w = (n, w')"
  have fresh: "nextId (send_logs (db w)) \<notin> log_id ` set (send_logs (db w))"
    using log_id_less_nextId [of _ "send_logs (db w)"] by fastforce
  from ins fresh show ?thesis
    by (auto simp: insertSendLog_def Let_def logEvent_def sendingRow_def)
qed

subsection \<open>The steps of the worker, path by path\<close>

lemma updateInvoice_simps:
  "send_logs (updateInvoice i g dbase) = send_logs dbase"
  "invoice_files (updateInvoice i g dbase) = invoice_files dbase"
  "invoice_settings (updateInvoice i g dbase) = invoice_settings dbase"
  "customer_preferences (updateInvoice i g dbase) = customer_preferences dbase"
  "invoices (updateInvoice i g dbase) k =
     (if k = i then map_option g (invoices dbase i) else invoices dbase k)"
  by (simp_all add: updateInvoice_def split: option.splits)

lemma pdf_no_settings: "generatePdfStep rt e None d w = ((None, None, None), w)"
  by (simp add: generatePdfStep_def)

lemma pdf_render_throws:
  assumes "generateInvoicePDF e (invoiceData d) (companyData s) = Inl x"
  shows "generatePdfStep rt e (Some s) d w =
    ((None, None, None),
     w\<lparr>trace := trace w @ [Call GenerateInvoicePDF, Threw GenerateInvoicePDF],
       history := history w @ [send_logs (db w), send_logs (db w)]\<rparr>)"
  using assms by (simp add: generatePdfStep_def await_def logEvent_def)

lemma pdf_store_throws:
  assumes "generateInvoicePDF e (invoiceData d) (companyData s) = Inr buffer"
    and "savePDF e buffer (''invoice-'' @ invoiceNumber (invoiceData d) @ ''.pdf'') = Inl x"
  shows "generatePdfStep rt e (Some s) d w =
    ((None, None, None),
     w\<lparr>trace := trace w @ [Call GenerateInvoicePDF, Returned GenerateInvoicePDF, Progress 25,
        Call SavePDF, Threw SavePDF],
       history := history w @ replicate 5 (send_logs (db w))\<rparr>)"
  using assms by (simp add: generatePdfStep_def await_def logEvent_def eval_nat_numeral)

lemma pdf_stored:
  assumes "generateInvoicePDF e (invoiceData d) (companyData s) = Inr buffer"
    and "savePDF e buffer (''invoice-'' @ invoiceNumber (invoiceData d) @ ''.pdf'') = Inr info"
  shows "generatePdfStep rt e (Some s) d w =
    ((Some buffer, Some (''invoice-'' @ invoiceNumber (invoiceData d) @ ''.pdf''),
      Some (generateSignedUrl rt (Date_now e) (JStr (pdfPath (invoiceId d)))
              (orNumber (signed_url_expiry_days s) 7))),
     w\<lparr>db := (db w)\<lparr>invoice_files := invoice_files (db w) @
            [\<lparr>file_invoice_id = invoiceId d, file_name = fileName info,
              file_path = filePath info, file_size = fileSize info,
              file_hash = fileHash info, storage_type = storageType info,
              signed_url = Some (generateSignedUrl rt (Date_now e) (JStr (pdfPath (invoiceId d)))
                 (orNumber (signed_url_expiry_days s) 7)),
              generated_at = now_file e\<rparr>]\<rparr>,
        trace := trace w @ [Call GenerateInvoicePDF, Returned GenerateInvoicePDF, Progress 25,
          Call SavePDF, Returned SavePDF, Run InsertInvoiceFile],
        history := history w @ replicate 6 (send_logs (db w))\<rparr>)"
  using assms
  by (simp add: generatePdfStep_def await_def logEvent_def insertInvoiceFile_def Let_def
      eval_nat_numeral)

lemma email_no_settings: "sendEmailStep e None prefs d a w = (Inl TypeError, w)"
  by (simp add: sendEmailStep_def)

lemma email_not_attempted:
  assumes "\<not> (email_enabled s \<and> truthy (customerEmail (invoiceData d)))"
  shows "sendEmailStep e (Some s) prefs d a w = (Inr (), w)"
  using assms by (auto simp add: sendEmailStep_def)

lemma email_init_throws:
  assumes "email_enabled s" "truthy (customerEmail (invoiceData d))"
    and "emailInit e s = Inl err"
  shows "sendEmailStep e (Some s) prefs d a w =
    (Inl err,
     w\<lparr>db := (db w)\<lparr>send_logs := send_logs (db w) @
          [(sendingRow Email (nextId (send_logs (db w))) (invoiceId d) (customerEmail (invoiceData d))
             (email_provider s) (triggeredBy d) (triggerType d) (now_email e))
           \<lparr>status := ''failed'', error_message := error err, error_code := errorCode err\<rparr>]\<rparr>,
       trace := trace w @
         [Run (InsertSendLog Email (nextId (send_logs (db w)))),
          Call (ServiceInit Email), Threw (ServiceInit Email),
          Run (UpdateSendLog Email (nextId (send_logs (db w))) ''failed'')],
       history := history w @
         replicate 3 (send_logs (db w) @
             [(sendingRow Email (nextId (send_logs (db w))) (invoiceId d)
                 (customerEmail (invoiceData d)) (email_provider s) (triggeredBy d) (triggerType d)
                 (now_email e))]) @
         replicate 1 (send_logs (db w) @
             [(sendingRow Email (nextId (send_logs (db w))) (invoiceId d)
                 (customerEmail (invoiceData d)) (email_provider s) (triggeredBy d) (triggerType d)
                 (now_email e))
              \<lparr>status := ''failed'', error_message := error err, error_code := errorCode err\<rparr>])\<rparr>)"
  using assms
  by (simp add: sendEmailStep_def emailTry_def insertSendLog_def updateSendLog_def await_def
      logEvent_def Let_def update_older_rows sendingRow_def eval_nat_numeral)

lemma email_dispatch_throws:
  assumes "email_enabled s" "truthy (customerEmail (invoiceData d))"
    and "emailInit e s = Inr u"
    and "sendInvoiceEmail e (emailParams e s prefs d (b, f, l)) = Inl err"
  shows "sendEmailStep e (Some s) prefs d (b, f, l) w =
    (Inl err,
     w\<lparr>db := (db w)\<lparr>send_logs := send_logs (db w) @
          [(sendingRow Email (nextId (send_logs (db w))) (invoiceId d) (customerEmail (invoiceData d))
             (email_provider s) (triggeredBy d) (triggerType d) (now_email e))
           \<lparr>status := ''failed'', error_message := error err, error_code := errorCode err\<rparr>]\<rparr>,
       trace := trace w @
         [Run (InsertSendLog Email (nextId (send_logs (db w)))),
          Call (ServiceInit Email), Returned (ServiceInit Email),
          Call (SendInvoiceEmail b f l), Threw (SendInvoiceEmail b f l),
          Run (UpdateSendLog Email (nextId (send_logs (db w))) ''failed'')],
       history := history w @
         replicate 5 (send_logs (db w) @
             [(sendingRow Email (nextId (send_logs (db w))) (invoiceId d)
                 (customerEmail (invoiceData d)) (email_provider s) (triggeredBy d) (triggerType d)
                 (now_email e))]) @
         replicate 1 (send_logs (db w) @
             [(sendingRow Email (nextId (send_logs (db w))) (invoiceId d)
                 (customerEmail (invoiceData d)) (email_provider s) (triggeredBy d) (triggerType d)
                 (now_email e))
              \<lparr>status := ''failed'', error_message := error err, error_code := errorCode err\<rparr>])\<rparr>)"
  using assms
  by (simp add: sendEmailStep_def emailTry_def insertSendLog_def updateSendLog_def await_def
      logEvent_def Let_def update_older_rows sendingRow_def emailParams_def eval_nat_numeral)

lemma email_sent:
  assumes "email_enabled s" "truthy (customerEmail (invoiceData d))"
    and "emailInit e s = Inr u"
    and "sendInvoiceEmail e (emailParams e s prefs d (b, f, l)) = Inr res"
  shows "sendEmailStep e (Some s) prefs d (b, f, l) w =
    (Inr (),
     w\<lparr>db := updateInvoice (invoiceId d) (\<lambda>row. row\<lparr>email_sent := 1\<rparr>)
          ((db w)\<lparr>send_logs := send_logs (db w) @
          [(sendingRow Email (nextId (send_logs (db w))) (invoiceId d) (customerEmail (invoiceData d))
             (email_provider s) (triggeredBy d) (triggerType d) (now_email e))
           \<lparr>status := ''sent'', provider_message_id := messageId res,
             provider_response := response res\<rparr>]\<rparr>),
       trace := trace w @
         [Run (InsertSendLog Email (nextId (send_logs (db w)))),
          Call (ServiceInit Email), Returned (ServiceInit Email),
          Call (SendInvoiceEmail b f l), Returned (SendInvoiceEmail b f l),
          Run (UpdateSendLog Email (nextId (send_logs (db w))) ''sent''),
          Run (UpdateInvoiceSent Email)],
       history := history w @
         replicate 5 (send_logs (db w) @
             [(sendingRow Email (nextId (send_logs (db w))) (invoiceId d)
                 (customerEmail (invoiceData d)) (email_provider s) (triggeredBy d) (triggerType d)
                 (now_email e))]) @
         replicate 2 (send_logs (db w) @
             [(sendingRow Email (nextId (send_logs (db w))) (invoiceId d)
                 (customerEmail (invoiceData d)) (email_provider s) (triggeredBy d) (triggerType d)
                 (now_email e))
              \<lparr>status := ''sent'', provider_message_id := messageId res,
                 provider_response := response res\<rparr>])\<rparr>)"
  using assms
  by (simp add: sendEmailStep_def emailTry_def insertSendLog_def updateSendLog_def await_def
      logEvent_def Let_def update_older_rows sendingRow_def emailParams_def updateInvoiceSent_def
      updateInvoice_simps eval_nat_numeral)

lemma sms_no_settings: "sendSmsStep e None prefs d l w = (Inl TypeError, w)"
  by (simp add: sendSmsStep_def)

lemma sms_not_attempted:
  assumes "\<not> (sms_enabled s \<and> truthy (customerPhone (invoiceData d)) \<and> optedIn prefs)"
  shows "sendSmsStep e (Some s) prefs d l w = (Inr (), w)"
  using assms by (auto simp add: sendSmsStep_def)

lemma sms_init_throws:
  assumes "sms_enabled s" "truthy (customerPhone (invoiceData d))" "optedIn prefs"
    and "smsInit e s = Inl err"
  shows "sendSmsStep e (Some s) prefs d l w =
    (Inr (),
     w\<lparr>db := (db w)\<lparr>send_logs := send_logs (db w) @
          [(sendingRow Sms (nextId (send_logs (db w))) (invoiceId d) (customerPhone (invoiceData d))
             (sms_provider s) (triggeredBy d) (triggerType d) (now_sms e))
           \<lparr>status := ''failed'', error_message := error err\<rparr>]\<rparr>,
       trace := trace w @
         [Run (InsertSendLog Sms (nextId (send_logs (db w)))),
          Call (ServiceInit Sms), Threw (ServiceInit Sms),
          Run (UpdateSendLog Sms (nextId (send_logs (db w))) ''failed'')],
       history := history w @
         replicate 3 (send_logs (db w) @
             [(sendingRow Sms (nextId (send_logs (db w))) (invoiceId d)
                 (customerPhone (invoiceData d)) (sms_provider s) (triggeredBy d) (triggerType d)
                 (now_sms e))]) @
         replicate 1 (send_logs (db w) @
             [(sendingRow Sms (nextId (send_logs (db w))) (invoiceId d)
                 (customerPhone (invoiceData d)) (sms_provider s) (triggeredBy d) (triggerType d)
                 (now_sms e))
              \<lparr>status := ''failed'', error_message := error err\<rparr>])\<rparr>)"
  using assms
  by (simp add: sendSmsStep_def smsTry_def insertSendLog_def updateSendLog_def await_def
      logEvent_def Let_def update_older_rows sendingRow_def eval_nat_numeral)

lemma sms_dispatch_throws:
  assumes "sms_enabled s" "truthy (customerPhone (invoiceData d))" "optedIn prefs"
    and "smsInit e s = Inr u"
    and "sendInvoiceSMS e (smsParams s d l) = Inl err"
  shows "sendSmsStep e (Some s) prefs d l w =
    (Inr (),
     w\<lparr>db := (db w)\<lparr>send_logs := send_logs (db w) @
          [(sendingRow Sms (nextId (send_logs (db w))) (invoiceId d) (customerPhone (invoiceData d))
             (sms_provider s) (triggeredBy d) (triggerType d) (now_sms e))
           \<lparr>status := ''failed'', error_message := error err\<rparr>]\<rparr>,
       trace := trace w @
         [Run (InsertSendLog Sms (nextId (send_logs (db w)))),
          Call (ServiceInit Sms), Returned (ServiceInit Sms),
          Call (SendInvoiceSMS l), Threw (SendInvoiceSMS l),
          Run (UpdateSendLog Sms (nextId (send_logs (db w))) ''failed'')],
       history := history w @
         replicate 5 (send_logs (db w) @
             [(sendingRow Sms (nextId (send_logs (db w))) (invoiceId d)
                 (customerPhone (invoiceData d)) (sms_provider s) (triggeredBy d) (triggerType d)
                 (now_sms e))]) @
         replicate 1 (send_logs (db w) @
             [(sendingRow Sms (nextId (send_logs (db w))) (invoiceId d)
                 (customerPhone (invoiceData d)) (sms_provider s) (triggeredBy d) (triggerType d)
                 (now_sms e))
              \<lparr>status := ''failed'', error_message := error err\<rparr>])\<rparr>)"
  using assms
  by (simp add: sendSmsStep_def smsTry_def insertSendLog_def updateSendLog_def await_def
      logEvent_def Let_def update_older_rows sendingRow_def smsParams_def eval_nat_numeral)

lemma sms_sent:
  assumes "sms_enabled s" "truthy (customerPhone (invoiceData d))" "optedIn prefs"
    and "smsInit e s = Inr u"
    and "sendInvoiceSMS e (smsParams s d l) = Inr res"
  shows "sendSmsStep e (Some s) prefs d l w =
    (Inr (),
     w\<lparr>db := updateInvoice (invoiceId d) (\<lambda>row. row\<lparr>sms_sent := 1\<rparr>)
          ((db w)\<lparr>send_logs := send_logs (db w) @
          [(sendingRow Sms (nextId (send_logs (db w))) (invoiceId d) (customerPhone (invoiceData d))
             (sms_provider s) (triggeredBy d) (triggerType d) (now_sms e))
           \<lparr>status := ''sent'', provider_message_id := messageId res\<rparr>]\<rparr>),
       trace := trace w @
         [Run (InsertSendLog Sms (nextId (send_logs (db w)))),
          Call (ServiceInit Sms), Returned (ServiceInit Sms),
          Call (SendInvoiceSMS l), Returned (SendInvoiceSMS l),
          Run (UpdateSendLog Sms (nextId (send_logs (db w))) ''sent''),
          Run (UpdateInvoiceSent Sms)],
       history := history w @
         replicate 5 (send_logs (db w) @
             [(sendingRow Sms (nextId (send_logs (db w))) (invoiceId d)
                 (customerPhone (invoiceData d)) (sms_provider s) (triggeredBy d) (triggerType d)
                 (now_sms e))]) @
         replicate 2 (send_logs (db w) @
             [(sendingRow Sms (nextId (send_logs (db w))) (invoiceId d)
                 (customerPhone (invoiceData d)) (sms_provider s) (triggeredBy d) (triggerType d)
                 (now_sms e))
              \<lparr>status := ''sent'', provider_message_id := messageId res\<rparr>])\<rparr>)"
  using assms
  by (simp add: sendSmsStep_def smsTry_def insertSendLog_def updateSendLog_def await_def
      logEvent_def Let_def update_older_rows sendingRow_def smsParams_def updateInvoiceSent_def
      updateInvoice_simps eval_nat_numeral)

lemma pdf_frame:
  "\<exists>a files seg seen.
     generatePdfStep rt e st d w =
       (a, w\<lparr>db := (db w)\<lparr>invoice_files := invoice_files (db w) @ files\<rparr>,
             trace := trace w @ seg, history := history w @ seen\<rparr>) \<and>
     set seg \<subseteq> pdfEvents"
proof (cases st)
  case None
  have "generatePdfStep rt e st d w =
      ((None, None, None), w\<lparr>db := (db w)\<lparr>invoice_files := invoice_files (db w) @ []\<rparr>,
             trace := trace w @ [], history := history w @ []\<rparr>)"
    using None by (simp add: pdf_no_settings)
  then show ?thesis by (intro exI conjI, assumption) simp
next
  case (Some s)
  show ?thesis
  proof (cases "generateInvoicePDF e (invoiceData d) (companyData s)")
    case (Inl x)
    have "generatePdfStep rt e st d w =
      ((None, None, None), w\<lparr>db := (db w)\<lparr>invoice_files := invoice_files (db w) @ []\<rparr>,
             trace := trace w @ [Call GenerateInvoicePDF, Threw GenerateInvoicePDF],
             history := history w @ [send_logs (db w), send_logs (db w)]\<rparr>)"
      using Some pdf_render_throws [OF Inl] by simp
    then show ?thesis by (intro exI conjI, assumption) (simp add: pdfEvents_def)
  next
    case (Inr buffer)
    show ?thesis
    proof (cases "savePDF e buffer (''invoice-'' @ invoiceNumber (invoiceData d) @ ''.pdf'')")
      case (Inl x)
      have "generatePdfStep rt e st d w =
        ((None, None, None), w\<lparr>db := (db w)\<lparr>invoice_files := invoice_files (db w) @ []\<rparr>,
             trace := trace w @ [Call GenerateInvoicePDF, Returned GenerateInvoicePDF, Progress 25,
               Call SavePDF, Threw SavePDF],
             history := history w @ replicate 5 (send_logs (db w))\<rparr>)"
        using Some pdf_store_throws [OF Inr Inl] by simp
      then show ?thesis by (intro exI conjI, assumption) (simp add: pdfEvents_def)
    next
      case info: (Inr info)
      have "generatePdfStep rt e st d w = 
  ((Some buffer, Some (''invoice-'' @ invoiceNumber (invoiceData d) @ ''.pdf''),
      Some (generateSignedUrl rt (Date_now e) (JStr (pdfPath (invoiceId d)))
              (orNumber (signed_url_expiry_days s) 7))),
     w\<lparr>db := (db w)\<lparr>invoice_files := invoice_files (db w) @
            [\<lparr>file_invoice_id = invoiceId d, file_name = fileName info,
              file_path = filePath info, file_size = fileSize info,
              file_hash = fileHash info, storage_type = storageType info,
              signed_url = Some (generateSignedUrl rt (Date_now e) (JStr (pdfPath (invoiceId d)))
                 (orNumber (signed_url_expiry_days s) 7)),
              generated_at = now_file e\<rparr>]\<rparr>,
        trace := trace w @ [Call GenerateInvoicePDF, Returned GenerateInvoicePDF, Progress 25,
          Call SavePDF, Returned SavePDF, Run InsertInvoiceFile],
        history := history w @ replicate 6 (send_logs (db w))\<rparr>)"
        using Some pdf_stored [OF Inr info] by simp
      then show ?thesis by (intro exI conjI, assumption) (simp add: pdfEvents_def)
    qed
  qed
qed

lemma pdfEvents_simps:
  "Run (UpdateSendLog ch i x) \<notin> pdfEvents" "Run (UpdateInvoiceSent ch) \<notin> pdfEvents"
  "Run (UpdateSendStatus x) \<notin> pdfEvents" "Run (InsertSendLog ch i) \<notin> pdfEvents"
  "Call (ServiceInit ch) \<notin> pdfEvents" "Call (SendInvoiceEmail b f u) \<notin> pdfEvents"
  "Call (SendInvoiceSMS u) \<notin> pdfEvents" "Progress 40 \<notin> pdfEvents"
  by (simp_all add: pdfEvents_def)

lemma logEvent_simps:
  "db (logEvent ev w) = db w" "trace (logEvent ev w) = trace w @ [ev]"
  "history (logEvent ev w) = history w @ [send_logs (db w)]"
  by (simp_all add: logEvent_def)

lemma updateSendStatus_simps:
  "db (updateSendStatus x i w) = updateInvoice i (\<lambda>row. row\<lparr>send_status := x\<rparr>) (db w)"
  "trace (updateSendStatus x i w) = trace w @ [Run (UpdateSendStatus x)]"
  "history (updateSendStatus x i w) = history w @ [send_logs (db w)]"
  by (simp_all add: updateSendStatus_def logEvent_def updateInvoice_simps)

subsection \<open>Failure of the e-mail dispatch\<close>

text \<open>
  C3. When the e-mail dispatch call throws (the service has initialised and the send raises
  \<open>err\<close>), the send-log row the job inserted goes from \<open>sending\<close> to \<open>failed\<close>
  with the message and the code of \<open>err\<close>, the processor throws the failure object
  again, the invoice's \<open>send_status\<close> becomes \<open>failed\<close> with \<open>email_sent\<close> as it
  was, and none of the success-path statements is run.
\<close>

theorem email_dispatch_failure:
  assumes d: "d = job_payload j"
    and st: "invoice_settings (db w) = Some s"
    and prefs: "prefs = loadPreferences (db w) (customerEmail (invoiceData d))"
    and consent: "\<not> unsubscribed prefs"
    and enabled: "email_enabled s" "truthy (customerEmail (invoiceData d))"
    and artifact: "artifact = fst (generatePdfStep rt e (Some s) d (logEvent (Progress 10) w))"
    and init: "emailInit e s = Inr ()"
    and throws: "emailTransmit e (emailParams e s prefs d artifact) = Inl err"
    and row: "invoices (db w) (invoiceId d) = Some row"
    and fresh: "trace w = []"
    and run: "w' = snd (sendInvoiceProcessor rt e j w)"
  shows "fst (sendInvoiceProcessor rt e j w) = Inl (sendFailure err) \<and>
    send_logs (db w') = send_logs (db w) @
      [(sendingRow Email (nextId (send_logs (db w))) (invoiceId d) (customerEmail (invoiceData d))
          (email_provider s) (triggeredBy d) (triggerType d) (now_email e))
       \<lparr>status := ''failed'', error_message := message err, error_code := code err\<rparr>] \<and>
    invoices (db w') (invoiceId d) = Some (row\<lparr>send_status := ''failed''\<rparr>) \<and>
    (\<forall>i. Run (UpdateSendLog Email i ''sent'') \<notin> set (trace w')) \<and>
    Run (UpdateInvoiceSent Email) \<notin> set (trace w') \<and>
    Run (UpdateSendStatus ''sent'') \<notin> set (trace w')"
proof -
  obtain a files seg seen where
    pdf: "generatePdfStep rt e (Some s) d (logEvent (Progress 10) w) =
       (a, (logEvent (Progress 10) w)\<lparr>db := (db (logEvent (Progress 10) w))
              \<lparr>invoice_files := invoice_files (db (logEvent (Progress 10) w)) @ files\<rparr>,
             trace := trace (logEvent (Progress 10) w) @ seg,
             history := history (logEvent (Progress 10) w) @ seen\<rparr>)"
    and seg: "set seg \<subseteq> pdfEvents"
    using pdf_frame by blast
  obtain b f l where a: "a = (b, f, l)" by (cases a)
  have art: "artifact = (b, f, l)" using artifact pdf a by simp
  have sent: "sendInvoiceEmail e (emailParams e s prefs d (b, f, l)) = Inl (sendFailure err)"
    using throws art by (simp add: sendInvoiceEmail_def)
  note step = email_dispatch_throws [OF enabled init sent]
  have notin: "\<And>x. x \<notin> pdfEvents \<Longrightarrow> x \<notin> set seg" using seg by blast
  show ?thesis
    unfolding run
    using row fresh
    by (simp add: sendInvoiceProcessor_def sendInvoiceBody_def Let_def d [symmetric] st
        prefs [symmetric] consent pdf a step logEvent_simps updateSendStatus_simps
        updateInvoice_simps sendFailure_def notin pdfEvents_simps)
qed

subsection \<open>The trace of a run\<close>

lemma pdf_step_trace:
  "trace (snd (generatePdfStep rt e (Some s) d w)) = trace w @ pdfStepEvents e s d"
  by (simp add: generatePdfStep_def pdfStepEvents_def await_def logEvent_def
      insertInvoiceFile_def Let_def split: sum.splits)

lemma pdf_step_db:
  "send_logs (db (snd (generatePdfStep rt e st d w))) = send_logs (db w)"
  "invoices (db (snd (generatePdfStep rt e st d w))) = invoices (db w)"
  by (simp_all add: generatePdfStep_def await_def logEvent_def
      insertInvoiceFile_def Let_def split: sum.splits option.splits)

lemma email_step_trace:
  "trace (snd (sendEmailStep e (Some s) prefs d (b, f, l) w)) =
   trace w @ channelEvents Email (nextId (send_logs (db w))) (SendInvoiceEmail b f l)
     (emailAttempted s d) (emailInit e s) (sendInvoiceEmail e (emailParams e s prefs d (b, f, l)))"
proof (cases "emailAttempted s d")
  case False
  then show ?thesis
    using email_not_attempted [of s d e prefs "(b, f, l)" w]
    by (simp add: emailAttempted_def channelEvents_def)
next
  case True
  then have en: "email_enabled s" "truthy (customerEmail (invoiceData d))"
    by (simp_all add: emailAttempted_def)
  show ?thesis
  proof (cases "emailInit e s")
    case (Inl err)
    show ?thesis
      using True Inl by (simp add: email_init_throws [OF en Inl] channelEvents_def)
  next
    case (Inr u)
    show ?thesis
    proof (cases "sendInvoiceEmail e (emailParams e s prefs d (b, f, l))")
      case (Inl err)
      show ?thesis
        using True Inr Inl by (simp add: email_dispatch_throws [OF en Inr Inl] channelEvents_def)
    next
      case res: (Inr res)
      show ?thesis
        using True Inr res by (simp add: email_sent [OF en Inr res] channelEvents_def)
    qed
  qed
qed

lemma email_step_result:
  "fst (sendEmailStep e (Some s) prefs d (b, f, l) w) = emailOutcome e s prefs d (b, f, l)"
proof (cases "emailAttempted s d")
  case False
  then show ?thesis
    using email_not_attempted [of s d e prefs "(b, f, l)" w]
    by (simp add: emailAttempted_def emailOutcome_def)
next
  case True
  then have en: "email_enabled s" "truthy (customerEmail (invoiceData d))"
    by (simp_all add: emailAttempted_def)
  show ?thesis
  proof (cases "emailInit e s")
    case (Inl err)
    show ?thesis
      using True Inl by (simp add: email_init_throws [OF en Inl] emailOutcome_def)
  next
    case (Inr u)
    show ?thesis
    proof (cases "sendInvoiceEmail e (emailParams e s prefs d (b, f, l))")
      case (Inl err)
      show ?thesis
        using True Inr Inl by (simp add: email_dispatch_throws [OF en Inr Inl] emailOutcome_def)
    next
      case res: (Inr res)
      show ?thesis
        using True Inr res by (simp add: email_sent [OF en Inr res] emailOutcome_def)
    qed
  qed
qed

lemma sms_step_trace:
  "trace (snd (sendSmsStep e (Some s) prefs d l w)) =
   trace w @ channelEvents Sms (nextId (send_logs (db w))) (SendInvoiceSMS l)
     (smsAttempted s prefs d) (smsInit e s) (sendInvoiceSMS e (smsParams s d l))"
proof (cases "smsAttempted s prefs d")
  case False
  then show ?thesis
    using sms_not_attempted [of s d prefs e l w]
    by (simp add: smsAttempted_def channelEvents_def)
next
  case True
  then have en: "sms_enabled s" "truthy (customerPhone (invoiceData d))" "optedIn prefs"
    by (simp_all add: smsAttempted_def)
  show ?thesis
  proof (cases "smsInit e s")
    case (Inl err)
    show ?thesis
      using True Inl by (simp add: sms_init_throws [OF en Inl] channelEvents_def)
  next
    case (Inr u)
    show ?thesis
    proof (cases "sendInvoiceSMS e (smsParams s d l)")
      case (Inl err)
      show ?thesis
        using True Inr Inl by (simp add: sms_dispatch_throws [OF en Inr Inl] channelEvents_def)
    next
      case res: (Inr res)
      show ?thesis
        using True Inr res by (simp add: sms_sent [OF en Inr res] channelEvents_def)
    qed
  qed
qed

lemma sms_step_result: "fst (sendSmsStep e (Some s) prefs d l w) = Inr ()"
  by (simp add: sendSmsStep_def smsTry_def insertSendLog_def await_def Let_def
      split: sum.splits prod.splits)

lemma body_steps:
  assumes d: "d = job_payload j"
    and st: "invoice_settings (db w) = Some s"
    and prefs: "prefs = loadPreferences (db w) (customerEmail (invoiceData d))"
    and consent: "\<not> unsubscribed prefs"
    and art: "fst (generatePdfStep rt e (Some s) d (logEvent (Progress 10) w)) = (b, f, l)"
  shows "sendInvoiceBody rt e j w =
    (let w2 = snd (generatePdfStep rt e (Some s) d (logEvent (Progress 10) w));
         w3 = logEvent (Progress 40) w2;
         w4 = snd (sendEmailStep e (Some s) prefs d (b, f, l) w3)
     in case emailOutcome e s prefs d (b, f, l) of
          Inl err \<Rightarrow> (Inl err, w4)
        | Inr _ \<Rightarrow>
            (let w5 = logEvent (Progress 70) w4;
                 w6 = snd (sendSmsStep e (Some s) prefs d l w5);
                 w7 = logEvent (Progress 100) w6
             in (Inr (Success (invoiceId d) f), updateSendStatus ''sent'' (invoiceId d) w7)))"
  using consent
  by (simp add: sendInvoiceBody_def Let_def d [symmetric] st prefs [symmetric]
      split_beta art email_step_result sms_step_result
      split: sum.splits)

lemma run_trace_ids:
  assumes d: "d = job_payload j"
    and st: "invoice_settings (db w) = Some s"
    and prefs: "prefs = loadPreferences (db w) (customerEmail (invoiceData d))"
    and consent: "\<not> unsubscribed prefs"
    and artifact: "a = fst (generatePdfStep rt e (Some s) d (logEvent (Progress 10) w))"
    and fresh: "trace w = []"
  shows "trace (snd (sendInvoiceProcessor rt e j w)) =
      runEvents e s prefs d a (nextId (send_logs (db w)))
        (nextId (send_logs (db (snd (sendEmailStep e (Some s) prefs d a
           (logEvent (Progress 40)
             (snd (generatePdfStep rt e (Some s) d (logEvent (Progress 10) w)))))))))"
    and "fst (sendInvoiceProcessor rt e j w) =
      (case emailOutcome e s prefs d a of
         Inl err \<Rightarrow> Inl err
       | Inr _ \<Rightarrow> Inr (Success (invoiceId d) (fst (snd a))))"
proof -
  obtain b f l where a: "a = (b, f, l)" by (cases a)
  have art: "fst (generatePdfStep rt e (Some s) d (logEvent (Progress 10) w)) = (b, f, l)"
    using artifact a by simp
  note body = body_steps [OF d st prefs consent art]
  show "fst (sendInvoiceProcessor rt e j w) =
      (case emailOutcome e s prefs d a of
         Inl err \<Rightarrow> Inl err
       | Inr _ \<Rightarrow> Inr (Success (invoiceId d) (fst (snd a))))"
    by (simp add: sendInvoiceProcessor_def body Let_def a split: sum.splits)
  show "trace (snd (sendInvoiceProcessor rt e j w)) =
      runEvents e s prefs d a (nextId (send_logs (db w)))
        (nextId (send_logs (db (snd (sendEmailStep e (Some s) prefs d a
           (logEvent (Progress 40)
             (snd (generatePdfStep rt e (Some s) d (logEvent (Progress 10) w)))))))))"
    using fresh
    by (simp add: sendInvoiceProcessor_def body Let_def a runEvents_def logEvent_simps
        updateSendStatus_simps pdf_step_trace email_step_trace sms_step_trace pdf_step_db
        d [symmetric] split: sum.splits)
qed

lemma run_trace:
  assumes d: "d = job_payload j"
    and st: "invoice_settings (db w) = Some s"
    and prefs: "prefs = loadPreferences (db w) (customerEmail (invoiceData d))"
    and consent: "\<not> unsubscribed prefs"
    and artifact: "a = fst (generatePdfStep rt e (Some s) d (logEvent (Progress 10) w))"
    and fresh: "trace w = []"
  shows "\<exists>i1 i2. trace (snd (sendInvoiceProcessor rt e j w)) = runEvents e s prefs d a i1 i2"
    and "fst (sendInvoiceProcessor rt e j w) =
      (case emailOutcome e s prefs d a of
         Inl err \<Rightarrow> Inl err
       | Inr _ \<Rightarrow> Inr (Success (invoiceId d) (fst (snd a))))"
  using run_trace_ids [OF assms] by blast+

lemma run_unsubscribed:
  assumes "unsubscribed (loadPreferences (db w) (customerEmail (invoiceData (job_payload j))))"
  shows "sendInvoiceProcessor rt e j w = (Inr (Skipped ''unsubscribed''), w)"
  using assms by (simp add: sendInvoiceProcessor_def sendInvoiceBody_def Let_def)

lemma run_no_settings:
  assumes "\<not> unsubscribed (loadPreferences (db w) (customerEmail (invoiceData (job_payload j))))"
    and "invoice_settings (db w) = None"
  shows "sendInvoiceProcessor rt e j w =
    (Inl TypeError,
     updateSendStatus ''failed'' (invoiceId (job_payload j))
       (logEvent (Progress 40) (logEvent (Progress 10) w)))"
  using assms
  by (simp add: sendInvoiceProcessor_def sendInvoiceBody_def Let_def pdf_no_settings
      email_no_settings)

subsection \<open>Progress reports\<close>

lemma progressReports_simps:
  "progressReports [] = []"
  "progressReports (xs @ ys) = progressReports xs @ progressReports ys"
  "progressReports (Progress n # xs) = n # progressReports xs"
  "progressReports (Run q # xs) = progressReports xs"
  "progressReports (Call c # xs) = progressReports xs"
  "progressReports (Returned c # xs) = progressReports xs"
  "progressReports (Threw c # xs) = progressReports xs"
  by (simp_all add: progressReports_def)

lemma progress_channelEvents: "progressReports (channelEvents ch i c a ini snt) = []"
  by (simp add: channelEvents_def progressReports_simps split: sum.splits)

lemma progress_pdfStepEvents:
  "progressReports (pdfStepEvents e s d) = (if rendered e (Some s) d then [25] else [])"
  by (simp add: pdfStepEvents_def rendered_def progressReports_simps split: sum.splits)

lemma pdfStepEvents_stages:
  "\<exists>render store.
     pdfStepEvents e s d =
       render @ (if rendered e (Some s) d then Progress 25 # store else []) \<and>
     set render \<subseteq> renderEvents \<and> set store \<subseteq> storeEvents \<and>
     (rendered e (Some s) d \<longrightarrow>
        render = [Call GenerateInvoicePDF, Returned GenerateInvoicePDF] \<and>
        Call SavePDF \<in> set store)"
proof (cases "generateInvoicePDF e (invoiceData d) (companyData s)")
  case (Inl x)
  then have "pdfStepEvents e s d =
      [Call GenerateInvoicePDF, Threw GenerateInvoicePDF] @
      (if rendered e (Some s) d then Progress 25 # [] else []) \<and>
    set [Call GenerateInvoicePDF, Threw GenerateInvoicePDF] \<subseteq> renderEvents \<and>
    set [] \<subseteq> storeEvents \<and>
    (rendered e (Some s) d \<longrightarrow>
       [Call GenerateInvoicePDF, Threw GenerateInvoicePDF] =
         [Call GenerateInvoicePDF, Returned GenerateInvoicePDF] \<and>
       Call SavePDF \<in> set [])"
    by (simp add: pdfStepEvents_def rendered_def renderEvents_def)
  then show ?thesis by blast
next
  case (Inr buffer)
  define store where "store = Call SavePDF #
      (case savePDF e buffer (''invoice-'' @ invoiceNumber (invoiceData d) @ ''.pdf'') of
         Inl _ \<Rightarrow> [Threw SavePDF]
       | Inr _ \<Rightarrow> [Returned SavePDF, Run InsertInvoiceFile])"
  have "pdfStepEvents e s d =
      [Call GenerateInvoicePDF, Returned GenerateInvoicePDF] @
      (if rendered e (Some s) d then Progress 25 # store else []) \<and>
    set [Call GenerateInvoicePDF, Returned GenerateInvoicePDF] \<subseteq> renderEvents \<and>
    set store \<subseteq> storeEvents \<and>
    (rendered e (Some s) d \<longrightarrow>
       [Call GenerateInvoicePDF, Returned GenerateInvoicePDF] =
         [Call GenerateInvoicePDF, Returned GenerateInvoicePDF] \<and>
       Call SavePDF \<in> set store)"
    using Inr
    by (simp add: pdfStepEvents_def rendered_def renderEvents_def storeEvents_def store_def
        split: sum.splits)
  then show ?thesis by blast
qed

lemma channelEvents_concerns:
  assumes "callChannel c = Some ch"
  shows "\<forall>ev\<in>set (channelEvents ch i c a ini snt). concerns ch ev"
  using assms by (simp add: channelEvents_def split: sum.splits)

text \<open>
  C10, as the code has it. A run for a customer who has unsubscribed reports nothing and
  has no event at all. Any other run reports 10 before anything else; then come the events
  of rendering, then 25 exactly when the settings exist and rendering returned, followed
  by the events of storing the file; then 40, the events of the e-mail step, and either
  the \<open>failed\<close> status alone, when the processor throws, or 70, the events of the SMS
  step, 100 and the \<open>sent\<close> status. So the percentages of a run are 10, then 25 if
  the PDF was rendered, then 40, then 70 and 100 if the processor returns: a run that
  renders the PDF and completes reports 10, 25, 40, 70, 100, each once and in that order.
\<close>

theorem progress_reports:
  assumes fresh: "trace w = []"
    and d: "d = job_payload j"
    and prefs: "prefs = loadPreferences (db w) (customerEmail (invoiceData d))"
    and tr: "tr = trace (snd (sendInvoiceProcessor rt e j w))"
    and res: "thrown = isl (fst (sendInvoiceProcessor rt e j w))"
    and pdf: "pdf = rendered e (invoice_settings (db w)) d"
  shows "progressReports tr =
     (if unsubscribed prefs then []
      else 10 # (if pdf then [25] else []) @ 40 # (if thrown then [] else [70, 100])) \<and>
    (unsubscribed prefs \<longrightarrow> tr = []) \<and>
    (\<not> unsubscribed prefs \<longrightarrow>
       (\<exists>render store mail sms.
          tr = Progress 10 # render @ (if pdf then Progress 25 # store else []) @
               Progress 40 # mail @
               (if thrown then [Run (UpdateSendStatus ''failed'')]
                else Progress 70 # sms @ [Progress 100, Run (UpdateSendStatus ''sent'')]) \<and>
          set render \<subseteq> renderEvents \<and> set store \<subseteq> storeEvents \<and>
          (pdf \<longrightarrow> render = [Call GenerateInvoicePDF, Returned GenerateInvoicePDF] \<and>
                    Call SavePDF \<in> set store) \<and>
          (\<forall>ev\<in>set mail. concerns Email ev) \<and> (\<forall>ev\<in>set sms. concerns Sms ev)))"
proof (cases "unsubscribed prefs")
  case True
  then show ?thesis
    using run_unsubscribed [of w j rt e] fresh
    by (simp add: tr prefs d progressReports_simps)
next
  case False
  show ?thesis
  proof (cases "invoice_settings (db w)")
    case None
    have t: "tr = [Progress 10, Progress 40, Run (UpdateSendStatus ''failed'')]"
      and th: "thrown" and np: "\<not> pdf"
      using False fresh None run_no_settings [of w j rt e]
      by (simp_all add: tr res pdf prefs d logEvent_simps updateSendStatus_simps rendered_def)
    have "tr = Progress 10 # [] @ (if pdf then Progress 25 # [] else []) @
               Progress 40 # [] @
               (if thrown then [Run (UpdateSendStatus ''failed'')]
                else Progress 70 # [] @ [Progress 100, Run (UpdateSendStatus ''sent'')]) \<and>
          set [] \<subseteq> renderEvents \<and> set [] \<subseteq> storeEvents \<and>
          (pdf \<longrightarrow> [] = [Call GenerateInvoicePDF, Returned GenerateInvoicePDF] \<and>
                    Call SavePDF \<in> set []) \<and>
          (\<forall>ev\<in>set []. concerns Email ev) \<and> (\<forall>ev\<in>set []. concerns Sms ev)"
      using t th np by simp
    then have pos: "\<exists>render store mail sms.
          tr = Progress 10 # render @ (if pdf then Progress 25 # store else []) @
               Progress 40 # mail @
               (if thrown then [Run (UpdateSendStatus ''failed'')]
                else Progress 70 # sms @ [Progress 100, Run (UpdateSendStatus ''sent'')]) \<and>
          set render \<subseteq> renderEvents \<and> set store \<subseteq> storeEvents \<and>
          (pdf \<longrightarrow> render = [Call GenerateInvoicePDF, Returned GenerateInvoicePDF] \<and>
                    Call SavePDF \<in> set store) \<and>
          (\<forall>ev\<in>set mail. concerns Email ev) \<and> (\<forall>ev\<in>set sms. concerns Sms ev)"
      by blast
    have "progressReports tr = 10 # (if pdf then [25] else []) @ 40 # (if thrown then [] else [70, 100])"
      using t th np by (simp add: progressReports_simps)
    then show ?thesis using False pos by simp
  next
    case (Some s)
    define a where "a = fst (generatePdfStep rt e (Some s) d (logEvent (Progress 10) w))"
    from run_trace [OF d Some prefs False a_def fresh]
    obtain i1 i2 where
      t: "tr = runEvents e s prefs d a i1 i2"
      and r: "fst (sendInvoiceProcessor rt e j w) =
        (case emailOutcome e s prefs d a of
           Inl err \<Rightarrow> Inl err
         | Inr _ \<Rightarrow> Inr (Success (invoiceId d) (fst (snd a))))"
      unfolding tr by blast
    have th: "thrown = isl (emailOutcome e s prefs d a)"
      by (simp add: res r split: sum.splits)
    have p: "pdf = rendered e (Some s) d" by (simp add: pdf Some)
    obtain render store where
      stages: "pdfStepEvents e s d = render @ (if pdf then Progress 25 # store else [])"
      and sets: "set render \<subseteq> renderEvents" "set store \<subseteq> storeEvents"
      and rend: "pdf \<longrightarrow> render = [Call GenerateInvoicePDF, Returned GenerateInvoicePDF] \<and>
                    Call SavePDF \<in> set store"
      unfolding p using pdfStepEvents_stages [of e s d] by blast
    define mail where "mail = channelEvents Email i1
       (SendInvoiceEmail (fst a) (fst (snd a)) (snd (snd a)))
       (emailAttempted s d) (emailInit e s) (sendInvoiceEmail e (emailParams e s prefs d a))"
    define sms where "sms = channelEvents Sms i2 (SendInvoiceSMS (snd (snd a)))
            (smsAttempted s prefs d) (smsInit e s) (sendInvoiceSMS e (smsParams s d (snd (snd a))))"
    have m: "\<forall>ev\<in>set mail. concerns Email ev"
      unfolding mail_def by (rule channelEvents_concerns) simp
    have q: "\<forall>ev\<in>set sms. concerns Sms ev"
      unfolding sms_def by (rule channelEvents_concerns) simp
    have shape: "tr = Progress 10 # render @ (if pdf then Progress 25 # store else []) @
               Progress 40 # mail @
               (if thrown then [Run (UpdateSendStatus ''failed'')]
                else Progress 70 # sms @ [Progress 100, Run (UpdateSendStatus ''sent'')])"
      by (simp add: t runEvents_def stages mail_def sms_def th split: sum.splits)
    have pos: "\<exists>render store mail sms.
          tr = Progress 10 # render @ (if pdf then Progress 25 # store else []) @
               Progress 40 # mail @
               (if thrown then [Run (UpdateSendStatus ''failed'')]
                else Progress 70 # sms @ [Progress 100, Run (UpdateSendStatus ''sent'')]) \<and>
          set render \<subseteq> renderEvents \<and> set store \<subseteq> storeEvents \<and>
          (pdf \<longrightarrow> render = [Call GenerateInvoicePDF, Returned GenerateInvoicePDF] \<and>
                    Call SavePDF \<in> set store) \<and>
          (\<forall>ev\<in>set mail. concerns Email ev) \<and> (\<forall>ev\<in>set sms. concerns Sms ev)"
      using shape sets rend m q by blast
    have "progressReports tr = 10 # (if pdf then [25] else []) @ 40 # (if thrown then [] else [70, 100])"
      by (simp add: t th p runEvents_def progressReports_simps progress_channelEvents
          progress_pdfStepEvents split: sum.splits)
    then show ?thesis using False pos by simp
  qed
qed

subsection \<open>The timeline of a run\<close>




















subsection \<open>Order of the send log\<close>








subsection \<open>Final status and degraded mode\<close>

lemma email_step_invoice:
  assumes "invoices (db w) i = Some row"
  shows "\<exists>row'. invoices (db (snd (sendEmailStep e st prefs d a w))) i = Some row'"
  using assms
  by (auto simp: sendEmailStep_def emailTry_def insertSendLog_def updateSendLog_def await_def
      logEvent_def Let_def updateInvoiceSent_def updateInvoice_def
      split: sum.splits option.splits prod.splits)

lemma sms_step_invoice:
  assumes "invoices (db w) i = Some row"
  shows "\<exists>row'. invoices (db (snd (sendSmsStep e st prefs d l w))) i = Some row'"
  using assms
  by (auto simp: sendSmsStep_def smsTry_def insertSendLog_def updateSendLog_def await_def
      logEvent_def Let_def updateInvoiceSent_def updateInvoice_def
      split: sum.splits option.splits prod.splits)

lemma run_status:
  assumes d: "d = job_payload j"
    and st: "invoice_settings (db w) = Some s"
    and prefs: "prefs = loadPreferences (db w) (customerEmail (invoiceData d))"
    and consent: "\<not> unsubscribed prefs"
    and row: "invoices (db w) (invoiceId d) = Some row"
  shows "\<exists>row'. invoices (db (snd (sendInvoiceProcessor rt e j w))) (invoiceId d) = Some row' \<and>
    send_status row' = (if isl (fst (sendInvoiceProcessor rt e j w)) then ''failed'' else ''sent'')"
proof -
  obtain b f l where art: "fst (generatePdfStep rt e (Some s) d (logEvent (Progress 10) w)) = (b, f, l)"
    by (cases "fst (generatePdfStep rt e (Some s) d (logEvent (Progress 10) w))")
  note body = body_steps [OF d st prefs consent art]
  let ?w3 = "logEvent (Progress 40) (snd (generatePdfStep rt e (Some s) d (logEvent (Progress 10) w)))"
  have r3: "invoices (db ?w3) (invoiceId d) = Some row"
    using row by (simp add: logEvent_simps pdf_step_db)
  from email_step_invoice [OF r3] obtain row4 where
    r4: "invoices (db (snd (sendEmailStep e (Some s) prefs d (b, f, l) ?w3))) (invoiceId d) = Some row4"
    by blast
  let ?w5 = "logEvent (Progress 70) (snd (sendEmailStep e (Some s) prefs d (b, f, l) ?w3))"
  have r5: "invoices (db ?w5) (invoiceId d) = Some row4"
    using r4 by (simp add: logEvent_simps)
  from sms_step_invoice [OF r5] obtain row6 where
    r6: "invoices (db (snd (sendSmsStep e (Some s) prefs d l ?w5))) (invoiceId d) = Some row6"
    by blast
  show ?thesis
  proof (cases "emailOutcome e s prefs d (b, f, l)")
    case (Inl err)
    then show ?thesis
      using r4
      by (simp add: sendInvoiceProcessor_def body Let_def updateSendStatus_simps
          updateInvoice_simps d [symmetric])
  next
    case (Inr u)
    then show ?thesis
      using r6
      by (simp add: sendInvoiceProcessor_def body Let_def updateSendStatus_simps
          updateInvoice_simps logEvent_simps d [symmetric])
  qed
qed

lemma pdf_failure_artifact:
  assumes "generateInvoicePDF e (invoiceData d) (companyData s) = Inl x \<or>
      (\<exists>buffer. generateInvoicePDF e (invoiceData d) (companyData s) = Inr buffer \<and>
         savePDF e buffer (''invoice-'' @ invoiceNumber (invoiceData d) @ ''.pdf'') = Inl x)"
  shows "fst (generatePdfStep rt e (Some s) d w) = (None, None, None)"
  using assms pdf_render_throws [of e d s _ rt w] pdf_store_throws [of e d s _ _ rt w]
  by auto

text \<open>
  C4, as the code has it. When PDF rendering or storage throws, the job carries on with
  \<open>pdfBuffer\<close>, \<open>fileName\<close> and \<open>invoiceUrl\<close> all null and reports progress 40.
  If e-mail is enabled and the customer has an address, the e-mail service is called and,
  once it has initialised, \<open>sendInvoiceEmail\<close> is called with no attachment, no file
  name and no link; every dispatch call of such a run, on either channel, carries no
  artifact. The run ends with \<open>send_status\<close> \<open>sent\<close> when the processor returns
  and \<open>failed\<close> when it throws.
\<close>

theorem pdf_failure_degrades:
  assumes d: "d = job_payload j"
    and st: "invoice_settings (db w) = Some s"
    and prefs: "prefs = loadPreferences (db w) (customerEmail (invoiceData d))"
    and consent: "\<not> unsubscribed prefs"
    and fails: "generateInvoicePDF e (invoiceData d) (companyData s) = Inl x \<or>
      (\<exists>buffer. generateInvoicePDF e (invoiceData d) (companyData s) = Inr buffer \<and>
         savePDF e buffer (''invoice-'' @ invoiceNumber (invoiceData d) @ ''.pdf'') = Inl x)"
    and row: "invoices (db w) (invoiceId d) = Some row"
    and fresh: "trace w = []"
    and res: "res = fst (sendInvoiceProcessor rt e j w)"
    and run: "w' = snd (sendInvoiceProcessor rt e j w)"
  shows "fst (generatePdfStep rt e (Some s) d (logEvent (Progress 10) w)) = (None, None, None) \<and>
    Progress 40 \<in> set (trace w') \<and>
    (email_enabled s \<and> truthy (customerEmail (invoiceData d)) \<longrightarrow>
       Call (ServiceInit Email) \<in> set (trace w') \<and>
       (emailInit e s = Inr () \<longrightarrow> Call (SendInvoiceEmail None None None) \<in> set (trace w'))) \<and>
    (\<forall>b f u. Call (SendInvoiceEmail b f u) \<in> set (trace w') \<longrightarrow> b = None \<and> f = None \<and> u = None) \<and>
    (\<forall>u. Call (SendInvoiceSMS u) \<in> set (trace w') \<longrightarrow> u = None) \<and>
    (\<exists>row'. invoices (db w') (invoiceId d) = Some row' \<and>
       send_status row' = (if isl res then ''failed'' else ''sent''))"
proof -
  have a: "(None, None, None) = fst (generatePdfStep rt e (Some s) d (logEvent (Progress 10) w))"
    using pdf_failure_artifact [OF fails] by simp
  from run_trace(1) [OF d st prefs consent a fresh] obtain i1 i2 where
    tr: "trace w' = runEvents e s prefs d (None, None, None) i1 i2"
    using run by blast
  have pdf: "Call (SendInvoiceEmail b f u) \<notin> set (pdfStepEvents e s d)"
    "Call (SendInvoiceSMS u) \<notin> set (pdfStepEvents e s d)" for b f u
    by (simp_all add: pdfStepEvents_def split: sum.splits)
  have p40: "Progress 40 \<in> set (trace w')"
    by (simp add: tr runEvents_def)
  have attempt: "Call (ServiceInit Email) \<in> set (trace w') \<and>
       (emailInit e s = Inr () \<longrightarrow> Call (SendInvoiceEmail None None None) \<in> set (trace w'))"
    if "email_enabled s \<and> truthy (customerEmail (invoiceData d))"
    using that
    by (auto simp: tr runEvents_def channelEvents_def emailAttempted_def split: sum.splits)
  have email_args: "b = None \<and> f = None \<and> u = None"
    if "Call (SendInvoiceEmail b f u) \<in> set (trace w')" for b f u
    using that pdf
    by (auto simp: tr runEvents_def channelEvents_def split: sum.splits if_splits)
  have sms_args: "u = None" if "Call (SendInvoiceSMS u) \<in> set (trace w')" for u
    using that pdf
    by (auto simp: tr runEvents_def channelEvents_def split: sum.splits if_splits)
  have status: "\<exists>row'. invoices (db w') (invoiceId d) = Some row' \<and>
       send_status row' = (if isl res then ''failed'' else ''sent'')"
    unfolding res run by (rule run_status [OF d st prefs consent row])
  show ?thesis
    using a [symmetric] p40 attempt email_args sms_args status by blast
qed

subsection \<open>Unsubscribed customers\<close>

text \<open>
  C6. When the preferences of the invoice's customer have \<open>email_unsubscribed\<close> set, the
  processor returns the skipped outcome and the world it was given: no send-log row, no
  file record, no change to the invoice, no event.
\<close>

theorem unsubscribed_job_skipped:
  assumes "loadPreferences (db w) (customerEmail (invoiceData (job_payload j))) = Some p"
    and "email_unsubscribed p"
  shows "sendInvoiceProcessor rt e j w = (Inr (Skipped ''unsubscribed''), w)"
  using assms by (simp add: run_unsubscribed unsubscribed_def)

subsection \<open>Failure of the SMS dispatch\<close>

lemma sendInvoiceSMS_failure:
  "sendInvoiceSMS e p = Inl err \<Longrightarrow> \<exists>cause. err = sendFailure cause"
  by (auto simp: sendInvoiceSMS_def split: sum.splits)

lemma no_failed_status_in_steps:
  "Run (UpdateSendStatus x) \<notin> set (pdfStepEvents e s d)"
  "Run (UpdateSendStatus x) \<notin> set (channelEvents ch i c a ini snt)"
  by (simp_all add: pdfStepEvents_def channelEvents_def split: sum.splits)

text \<open>
  C5. When the e-mail step succeeded or was not attempted and the SMS dispatch call throws
  \<open>err\<close>, the processor returns success; the job's SMS row is the last of the send log,
  \<open>failed\<close>, with \<open>err.error\<close> as its message (\<open>err\<close> is the failure object of
  \<open>sendInvoiceSMS\<close>, which carries the message of the underlying error); the invoice's
  \<open>send_status\<close> is \<open>sent\<close>, and the status is never set to \<open>failed\<close>.
\<close>

theorem sms_failure_not_fatal:
  assumes d: "d = job_payload j"
    and st: "invoice_settings (db w) = Some s"
    and prefs: "prefs = loadPreferences (db w) (customerEmail (invoiceData d))"
    and consent: "\<not> unsubscribed prefs"
    and artifact: "a = fst (generatePdfStep rt e (Some s) d (logEvent (Progress 10) w))"
    and email_ok: "\<not> (email_enabled s \<and> truthy (customerEmail (invoiceData d))) \<or>
        (emailInit e s = Inr () \<and> emailTransmit e (emailParams e s prefs d a) = Inr delivered)"
    and gate: "sms_enabled s" "truthy (customerPhone (invoiceData d))" "optedIn prefs"
    and sms_init: "smsInit e s = Inr ()"
    and throws: "sendInvoiceSMS e (smsParams s d (snd (snd a))) = Inl err"
    and row: "invoices (db w) (invoiceId d) = Some row"
    and fresh: "trace w = []"
    and run: "w' = snd (sendInvoiceProcessor rt e j w)"
  shows "fst (sendInvoiceProcessor rt e j w) = Inr (Success (invoiceId d) (fst (snd a))) \<and>
    (\<exists>earlier n. send_logs (db w') = earlier @
       [(sendingRow Sms n (invoiceId d) (customerPhone (invoiceData d)) (sms_provider s)
           (triggeredBy d) (triggerType d) (now_sms e))
        \<lparr>status := ''failed'', error_message := error err\<rparr>]) \<and>
    (\<exists>cause. err = sendFailure cause) \<and>
    (\<exists>row'. invoices (db w') (invoiceId d) = Some row' \<and> send_status row' = ''sent'') \<and>
    Run (UpdateSendStatus ''failed'') \<notin> set (trace w')"
proof -
  obtain b f l where a: "a = (b, f, l)" by (cases a)
  have art: "fst (generatePdfStep rt e (Some s) d (logEvent (Progress 10) w)) = (b, f, l)"
    using artifact a by simp
  have out: "emailOutcome e s prefs d a = Inr ()"
    using email_ok by (auto simp: emailOutcome_def emailAttempted_def sendInvoiceEmail_def)
  have res: "fst (sendInvoiceProcessor rt e j w) = Inr (Success (invoiceId d) (fst (snd a)))"
    unfolding run_trace(2) [OF d st prefs consent artifact fresh] out by simp
  from run_trace(1) [OF d st prefs consent artifact fresh] obtain i1 i2 where
    tr: "trace w' = runEvents e s prefs d a i1 i2"
    using run by blast
  have never_failed: "Run (UpdateSendStatus ''failed'') \<notin> set (trace w')"
    by (simp add: tr runEvents_def out no_failed_status_in_steps)
  from run_status [OF d st prefs consent row, of rt e] res
  have status: "\<exists>row'. invoices (db w') (invoiceId d) = Some row' \<and> send_status row' = ''sent''"
    unfolding run by simp
  note body = body_steps [OF d st prefs consent art]
  have sl: "sendInvoiceSMS e (smsParams s d l) = Inl err" using throws a by simp
  note sms = sms_dispatch_throws [OF gate sms_init sl]
  let ?w5 = "logEvent (Progress 70) (snd (sendEmailStep e (Some s) prefs d (b, f, l)
      (logEvent (Progress 40) (snd (generatePdfStep rt e (Some s) d (logEvent (Progress 10) w))))))"
  have "send_logs (db w') = send_logs (db ?w5) @
       [(sendingRow Sms (nextId (send_logs (db ?w5))) (invoiceId d) (customerPhone (invoiceData d))
           (sms_provider s) (triggeredBy d) (triggerType d) (now_sms e))
        \<lparr>status := ''failed'', error_message := error err\<rparr>]"
    unfolding run
    using out a
    by (simp add: sendInvoiceProcessor_def body Let_def sms updateSendStatus_simps
        updateInvoice_simps logEvent_simps)
  then have logs: "\<exists>earlier n. send_logs (db w') = earlier @
       [(sendingRow Sms n (invoiceId d) (customerPhone (invoiceData d)) (sms_provider s)
           (triggeredBy d) (triggerType d) (now_sms e))
        \<lparr>status := ''failed'', error_message := error err\<rparr>]"
    by blast
  show ?thesis
    using res logs sendInvoiceSMS_failure [OF throws] status never_failed by blast
qed

subsection \<open>Links minted by the worker\<close>

lemma sample_roundtrip: "base64_roundtrip sampleRuntime"
  by (simp add: base64_roundtrip_def sampleRuntime_def base64_decode_encode)

lemma sample_facts:
  "sampleData = job_payload sampleJob"
  "invoice_settings (db sampleWorld) = Some sampleSettings"
  "Some samplePreferences = loadPreferences (db sampleWorld) (customerEmail (invoiceData sampleData))"
  "\<not> unsubscribed (Some samplePreferences)"
  "trace sampleWorld = []"
  "invoices (db sampleWorld) (invoiceId sampleData) = Some sampleInvoice"
  "email_enabled sampleSettings"
  "truthy (customerEmail (invoiceData sampleData))"
  "sms_enabled sampleSettings"
  "truthy (customerPhone (invoiceData sampleData))"
  "optedIn (Some samplePreferences)"
  by (simp_all add: sampleJob_def sampleWorld_def sampleDatabase_def sampleData_def
      sampleInvoice_def samplePreferences_def sampleSettings_def loadPreferences_def
      unsubscribed_def optedIn_def truthy_def invoice_data.truncate_def)

lemma sample_artifact:
  "fst (generatePdfStep rt sampleEnv (Some sampleSettings) sampleData w) =
     (Some [37, 80, 68, 70], Some ''invoice-INV-1001.pdf'',
      Some (generateSignedUrl rt 1700000000000 (JStr (pdfPath 1)) 7))"
proof -
  have g: "generateInvoicePDF sampleEnv (invoiceData sampleData) (companyData sampleSettings) =
      Inr [37, 80, 68, 70]"
    by (simp add: sampleEnv_def)
  have s: "savePDF sampleEnv [37, 80, 68, 70]
      (''invoice-'' @ invoiceNumber (invoiceData sampleData) @ ''.pdf'') =
      Inr \<lparr>fileName = ''invoice-INV-1001.pdf'', filePath = ''storage/invoice-INV-1001.pdf'',
           fileSize = 4, fileHash = ''00'', storageType = ''local''\<rparr>"
    by (simp add: sampleEnv_def sampleData_def sampleInvoice_def invoice_data.truncate_def)
  show ?thesis
    unfolding pdf_stored [OF g s]
    by (simp add: sampleEnv_def sampleData_def sampleInvoice_def sampleSettings_def
        invoice_data.truncate_def orNumber_def)
qed

lemma pdf_step_url:
  assumes "snd (snd (fst (generatePdfStep rt e (Some s) d w))) = Some token"
  shows "token = generateSignedUrl rt (Date_now e) (JStr (pdfPath (invoiceId d)))
           (orNumber (signed_url_expiry_days s) 7)"
  using assms
  by (simp add: generatePdfStep_def await_def Let_def split: sum.splits)

lemma steps_link:
  assumes "Call (SendInvoiceEmail b f (Some token)) \<in> set (runEvents e s prefs d a i1 i2) \<or>
      Call (SendInvoiceSMS (Some token)) \<in> set (runEvents e s prefs d a i1 i2)"
  shows "snd (snd a) = Some token"
proof -
  have pdf: "Call (SendInvoiceEmail b f u) \<notin> set (pdfStepEvents e s d)"
    "Call (SendInvoiceSMS u) \<notin> set (pdfStepEvents e s d)" for u
    by (simp_all add: pdfStepEvents_def split: sum.splits)
  show ?thesis
    using assms pdf
    by (auto simp: runEvents_def channelEvents_def split: sum.splits if_splits)
qed

text \<open>
  C1. A link that a delivery job hands to the e-mail or SMS dispatch carries a token
  minted over the path \<open>/api/invoices/<id>/pdf\<close>. \<open>parseInt\<close> of that path is
  \<open>NaN\<close>, strictly unequal to \<open>parseInt\<close> of every invoice id, so
  \<open>verifySignedUrl\<close> rejects the token against every numeric id at every time, and
  \<open>GET /:id/pdf\<close> answers 403 for it.
\<close>

theorem worker_links_fail_verification:
  assumes rt: "base64_roundtrip rt"
    and fresh: "trace w = []"
    and link: "Call (SendInvoiceEmail b f (Some token)) \<in>
                 set (trace (snd (sendInvoiceProcessor rt e j w))) \<or>
               Call (SendInvoiceSMS (Some token)) \<in>
                 set (trace (snd (sendInvoiceProcessor rt e j w)))"
  shows "(\<exists>days. token = generateSignedUrl rt (Date_now e)
                    (JStr (pdfPath (invoiceId (job_payload j)))) days) \<and>
    (\<forall>i. strictNotEqualNum (parseInt (JStr (pdfPath (invoiceId (job_payload j)))))
           (parseInt (JNum i))) \<and>
    (\<forall>now i. \<not> verifySignedUrl rt now token (JNum i)) \<and>
    (\<forall>now dbase i. getPdf rt now dbase i (Some token) =
       Json 403 (ErrorMessage ''Invalid or expired token''))"
proof -
  define d where "d = job_payload j"
  define prefs where "prefs = loadPreferences (db w) (customerEmail (invoiceData d))"
  have minted: "\<exists>days. token = generateSignedUrl rt (Date_now e) (JStr (pdfPath (invoiceId d))) days"
  proof (cases "unsubscribed prefs")
    case True
    then show ?thesis
      using link fresh run_unsubscribed [of w j rt e] by (simp add: prefs_def d_def)
  next
    case False
    show ?thesis
    proof (cases "invoice_settings (db w)")
      case None
      show ?thesis
        using link fresh False None run_no_settings [of w j rt e]
        by (simp add: prefs_def d_def logEvent_simps updateSendStatus_simps)
    next
      case (Some s)
      define a where "a = fst (generatePdfStep rt e (Some s) d (logEvent (Progress 10) w))"
      from run_trace(1) [OF d_def Some prefs_def False a_def fresh] obtain i1 i2 where
        tr: "trace (snd (sendInvoiceProcessor rt e j w)) = runEvents e s prefs d a i1 i2"
        by blast
      have "snd (snd a) = Some token"
        using link unfolding tr by (rule steps_link)
      then show ?thesis
        unfolding a_def using pdf_step_url by blast
    qed
  qed
  then obtain days where
    token: "token = generateSignedUrl rt (Date_now e) (JStr (pdfPath (invoiceId d))) days"
    by blast
  have nan: "strictNotEqualNum (parseInt (JStr (pdfPath (invoiceId d)))) (parseInt (JNum i))" for i
    by (simp add: parseInt_def parseIntStr_pdfPath strictNotEqualNum_def)
  have rejected: "\<not> verifySignedUrl rt now token (JNum i)" for now i
    unfolding token using worker_token_rejected [OF rt] by simp
  have forbidden: "getPdf rt now dbase i (Some token) =
      Json 403 (ErrorMessage ''Invalid or expired token'')" for now dbase i
    using rejected [of now i]
    by (cases "token = []") (simp_all add: getPdf_def truthy_def orString_def)
  show ?thesis
    using minted nan rejected forbidden unfolding d_def by blast
qed

lemma sample_email_call:
  "Call (SendInvoiceEmail (Some [37, 80, 68, 70]) (Some ''invoice-INV-1001.pdf'')
      (Some (generateSignedUrl rt 1700000000000 (JStr (pdfPath 1)) 7))) \<in>
   set (trace (snd (sendInvoiceProcessor rt sampleEnv sampleJob sampleWorld)))"
proof -
  from run_trace(1) [OF sample_facts(1-4) sample_artifact [symmetric] sample_facts(5)]
  obtain i1 i2 where
    tr: "trace (snd (sendInvoiceProcessor rt sampleEnv sampleJob sampleWorld)) =
      runEvents sampleEnv sampleSettings (Some samplePreferences) sampleData
        (Some [37, 80, 68, 70], Some ''invoice-INV-1001.pdf'',
         Some (generateSignedUrl rt 1700000000000 (JStr (pdfPath 1)) 7)) i1 i2"
    by blast
  have i: "emailInit sampleEnv sampleSettings = Inr ()" by (simp add: sampleEnv_def)
  show ?thesis
    unfolding tr
    by (simp add: runEvents_def channelEvents_def emailAttempted_def sample_facts(7,8) i)
qed

theorem worker_links_fail_verification_witness:
  "base64_roundtrip sampleRuntime \<and> trace sampleWorld = [] \<and>
   Call (SendInvoiceEmail (Some [37, 80, 68, 70]) (Some ''invoice-INV-1001.pdf'')
      (Some (generateSignedUrl sampleRuntime 1700000000000 (JStr (pdfPath 1)) 7))) \<in>
     set (trace (snd (sendInvoiceProcessor sampleRuntime sampleEnv sampleJob sampleWorld))) \<and>
   \<not> verifySignedUrl sampleRuntime 1700000000000
       (generateSignedUrl sampleRuntime 1700000000000 (JStr (pdfPath 1)) 7) (JNum 1) \<and>
   getPdf sampleRuntime 1700000000000 sampleDatabase 1
     (Some (generateSignedUrl sampleRuntime 1700000000000 (JStr (pdfPath 1)) 7)) =
     Json 403 (ErrorMessage ''Invalid or expired token'')"
proof -
  have link: "Call (SendInvoiceEmail (Some [37, 80, 68, 70]) (Some ''invoice-INV-1001.pdf'')
      (Some (generateSignedUrl sampleRuntime 1700000000000 (JStr (pdfPath 1)) 7))) \<in>
        set (trace (snd (sendInvoiceProcessor sampleRuntime sampleEnv sampleJob sampleWorld))) \<or>
      Call (SendInvoiceSMS (Some (generateSignedUrl sampleRuntime 1700000000000
        (JStr (pdfPath 1)) 7))) \<in>
        set (trace (snd (sendInvoiceProcessor sampleRuntime sampleEnv sampleJob sampleWorld)))"
    using sample_email_call by blast
  from worker_links_fail_verification [OF sample_roundtrip sample_facts(5) link]
  show ?thesis
    using sample_roundtrip sample_facts(5) sample_email_call by blast
qed

subsection \<open>Round trip of a token\<close>

lemma verify_requires_tag:
  assumes "verifySignedUrl rt now t rid"
  shows "element (split CHR '':'' (base64_decode rt t)) 2 =
    JStr (hmacHex rt (toString (element (split CHR '':'' (base64_decode rt t)) 0) @ '':'' @
                      toString (element (split CHR '':'' (base64_decode rt t)) 1)))"
  using assms by (simp add: verifySignedUrl_def Let_def split: if_splits)

lemma altered_signature_rejected:
  assumes rt: "base64_roundtrip rt"
    and c: "CHR '':'' \<notin> set sig"
    and ne: "sig \<noteq> hmacHex rt (toString (JNum i) @ '':'' @ numToString x)"
  shows "\<not> verifySignedUrl rt now
    (base64_encode rt ((toString (JNum i) @ '':'' @ numToString x) @ '':'' @ sig)) rid"
proof -
  have dec: "base64_decode rt (base64_encode rt s) = s" for s
    using rt by (simp add: base64_roundtrip_def)
  have "split CHR '':'' (numToString i @ '':'' @ numToString x @ '':'' @ sig) =
      [numToString i, numToString x, sig]"
    by (rule split_minted) (simp_all add: colon_notin_numToString c)
  then have parts: "split CHR '':'' (numToString i @ CHR '':'' # numToString x @ CHR '':'' # sig) =
      [numToString i, numToString x, sig]"
    by simp
  show ?thesis
    using ne
    by (simp add: verifySignedUrl_def dec parts element_def Let_def)
qed

lemma altered_fields_rejected:
  assumes rt: "base64_roundtrip rt"
    and a: "CHR '':'' \<notin> set a" and b: "CHR '':'' \<notin> set b"
    and c: "CHR '':'' \<notin> set sig"
    and ne: "hmacHex rt (a @ '':'' @ b) \<noteq> sig"
  shows "\<not> verifySignedUrl rt now (base64_encode rt ((a @ '':'' @ b) @ '':'' @ sig)) rid"
proof -
  have dec: "base64_decode rt (base64_encode rt s) = s" for s
    using rt by (simp add: base64_roundtrip_def)
  have "split CHR '':'' (a @ '':'' @ b @ '':'' @ sig) = [a, b, sig]"
    by (rule split_minted) (simp_all add: a b c)
  then have parts: "split CHR '':'' (a @ CHR '':'' # b @ CHR '':'' # sig) = [a, b, sig]"
    by simp
  show ?thesis
    using ne
    by (auto simp: verifySignedUrl_def dec parts element_def Let_def)
qed

text \<open>
  C2, as the code has it. For a numeric invoice id and a positive number of days, all
  numbers being safe integers, the minted token verifies against that id at every time up
  to the expiry, is rejected at every later time, and is rejected for every resource whose
  \<open>parseInt\<close> is strictly unequal to the id's. Whatever token is accepted has as its
  third field the tag of its first two; so a minted token whose signature is replaced by
  another colon-free string is rejected, and so is a token that keeps the minted
  signature over other fields unless their tag collides with it. A token is not rejected
  merely for differing from the minted one: any correctly signed token that has not
  expired is accepted.
\<close>

theorem token_round_trip:
  assumes rt: "base64_roundtrip rt"
    and days: "0 < days"
    and safe: "isSafeInteger i" "isSafeInteger (now + days * 24 * 60 * 60 * 1000)"
    and expiry: "expiry = now + days * 24 * 60 * 60 * 1000"
    and token: "token = generateSignedUrl rt now (JNum i) days"
    and tag: "signature = hmacHex rt (toString (JNum i) @ '':'' @ numToString expiry)"
  shows "(\<forall>now'. now' \<le> expiry \<longrightarrow> verifySignedUrl rt now' token (JNum i)) \<and>
    (\<forall>now'. expiry < now' \<longrightarrow> \<not> verifySignedUrl rt now' token (JNum i)) \<and>
    (\<forall>now' rid. strictNotEqualNum (parseInt rid) (parseInt (JNum i)) \<longrightarrow>
       \<not> verifySignedUrl rt now' token rid) \<and>
    (\<forall>now' rid t. verifySignedUrl rt now' t rid \<longrightarrow>
       element (split CHR '':'' (base64_decode rt t)) 2 =
       JStr (hmacHex rt (toString (element (split CHR '':'' (base64_decode rt t)) 0) @ '':'' @
                         toString (element (split CHR '':'' (base64_decode rt t)) 1)))) \<and>
    (\<forall>now' rid sig. CHR '':'' \<notin> set sig \<and> sig \<noteq> signature \<longrightarrow>
       \<not> verifySignedUrl rt now'
           (base64_encode rt ((toString (JNum i) @ '':'' @ numToString expiry) @ '':'' @ sig)) rid) \<and>
    (\<forall>now' rid a b. CHR '':'' \<notin> set a \<and> CHR '':'' \<notin> set b \<and>
         hmacHex rt (a @ '':'' @ b) \<noteq> signature \<longrightarrow>
       \<not> verifySignedUrl rt now'
           (base64_encode rt ((a @ '':'' @ b) @ '':'' @ signature)) rid)"
proof -
  have v: "verifySignedUrl rt now' token rid = (parseInt rid = Some i \<and> now' \<le> expiry)"
    for now' rid
    unfolding token expiry by (rule numeric_token [OF rt])
  have p: "parseInt (JNum i) = Some i" by (rule parseInt_JNum)
  have a: "\<forall>now'. now' \<le> expiry \<longrightarrow> verifySignedUrl rt now' token (JNum i)"
    by (simp add: v p)
  have b: "\<forall>now'. expiry < now' \<longrightarrow> \<not> verifySignedUrl rt now' token (JNum i)"
    by (simp add: v)
  have c: "\<forall>now' rid. strictNotEqualNum (parseInt rid) (parseInt (JNum i)) \<longrightarrow>
       \<not> verifySignedUrl rt now' token rid"
    by (auto simp: v p strictNotEqualNum_def)
  have colon_free: "CHR '':'' \<notin> set signature"
    unfolding tag by (simp add: hmacHex_def colon_notin_digestHex)
  have d: "\<forall>now' rid sig. CHR '':'' \<notin> set sig \<and> sig \<noteq> signature \<longrightarrow>
       \<not> verifySignedUrl rt now'
           (base64_encode rt ((toString (JNum i) @ '':'' @ numToString expiry) @ '':'' @ sig)) rid"
    unfolding tag using altered_signature_rejected [OF rt] by blast
  have e: "\<forall>now' rid a b. CHR '':'' \<notin> set a \<and> CHR '':'' \<notin> set b \<and>
         hmacHex rt (a @ '':'' @ b) \<noteq> signature \<longrightarrow>
       \<not> verifySignedUrl rt now'
           (base64_encode rt ((a @ '':'' @ b) @ '':'' @ signature)) rid"
    using altered_fields_rejected [OF rt _ _ colon_free] by blast
  show ?thesis
    using a b c d e verify_requires_tag by blast
qed

lemma split_decoded_minted:
  assumes rt: "base64_roundtrip rt" and c: "CHR '':'' \<notin> set (toString rid)"
  shows "split CHR '':'' (base64_decode rt (generateSignedUrl rt now rid days)) =
    [toString rid, numToString (now + days * 24 * 60 * 60 * 1000),
     hmacHex rt (toString rid @ '':'' @ numToString (now + days * 24 * 60 * 60 * 1000))]"
  using split_minted [OF c colon_notin_numToString,
      of "hmacHex rt (toString rid @ '':'' @ numToString (now + days * 24 * 60 * 60 * 1000))"]
  by (simp add: decoded_minted [OF rt] hmacHex_def colon_notin_digestHex)

theorem token_round_trip_counterexample:
  "base64_decode sampleRuntime (generateSignedUrl sampleRuntime 1700000000000 (JNum 5) 2) \<noteq>
   base64_decode sampleRuntime (generateSignedUrl sampleRuntime 1700000000000 (JNum 5) 1) \<and>
   verifySignedUrl sampleRuntime 1700000000000
     (generateSignedUrl sampleRuntime 1700000000000 (JNum 5) 2) (JNum 5)"
proof -
  have c: "CHR '':'' \<notin> set (toString (JNum 5))" by (simp add: colon_notin_numToString)
  have "split CHR '':'' (base64_decode sampleRuntime
          (generateSignedUrl sampleRuntime 1700000000000 (JNum 5) 2)) ! 1 =
        numToString (1700000000000 + 2 * 24 * 60 * 60 * 1000)"
    by (simp add: split_decoded_minted [OF sample_roundtrip c])
  moreover have "split CHR '':'' (base64_decode sampleRuntime
          (generateSignedUrl sampleRuntime 1700000000000 (JNum 5) 1)) ! 1 =
        numToString (1700000000000 + 1 * 24 * 60 * 60 * 1000)"
    by (simp add: split_decoded_minted [OF sample_roundtrip c])
  moreover have "numToString (1700000000000 + 2 * 24 * 60 * 60 * 1000) \<noteq>
      numToString (1700000000000 + 1 * 24 * 60 * 60 * 1000)"
  proof
    assume "numToString (1700000000000 + 2 * 24 * 60 * 60 * 1000) =
      numToString (1700000000000 + 1 * 24 * 60 * 60 * 1000)"
    then have "parseIntStr (numToString (1700000000000 + 2 * 24 * 60 * 60 * 1000)) =
      parseIntStr (numToString (1700000000000 + 1 * 24 * 60 * 60 * 1000))"
      by simp
    then show False by (simp only: parseIntStr_numToString) simp
  qed
  ultimately have differ: "base64_decode sampleRuntime
      (generateSignedUrl sampleRuntime 1700000000000 (JNum 5) 2) \<noteq>
    base64_decode sampleRuntime (generateSignedUrl sampleRuntime 1700000000000 (JNum 5) 1)"
    by metis
  have "verifySignedUrl sampleRuntime 1700000000000
     (generateSignedUrl sampleRuntime 1700000000000 (JNum 5) 2) (JNum 5)"
    by (simp add: numeric_token [OF sample_roundtrip] parseInt_JNum)
  with differ show ?thesis by blast
qed

theorem token_round_trip_witness:
  "base64_roundtrip sampleRuntime \<and> (0 :: int) < 7 \<and> isSafeInteger 1 \<and>
   isSafeInteger (1700000000000 + 7 * 24 * 60 * 60 * 1000) \<and>
   verifySignedUrl sampleRuntime 1700000000001
     (generateSignedUrl sampleRuntime 1700000000000 (JNum 1) 7) (JNum 1) \<and>
   \<not> verifySignedUrl sampleRuntime 1700604800001
     (generateSignedUrl sampleRuntime 1700000000000 (JNum 1) 7) (JNum 1) \<and>
   \<not> verifySignedUrl sampleRuntime 1700000000001
     (generateSignedUrl sampleRuntime 1700000000000 (JNum 1) 7) (JNum 2)"
proof -
  have d: "(0 :: int) < 7" by simp
  have s1: "isSafeInteger 1" by (simp add: isSafeInteger_def MAX_SAFE_INTEGER_def)
  have s2: "isSafeInteger (1700000000000 + 7 * 24 * 60 * 60 * 1000)"
    by (simp add: isSafeInteger_def MAX_SAFE_INTEGER_def)
  have ne: "strictNotEqualNum (parseInt (JNum 2)) (parseInt (JNum 1))"
    by (simp add: parseInt_JNum strictNotEqualNum_def)
  from token_round_trip [OF sample_roundtrip d s1 s2 refl refl refl] ne
  show ?thesis
    using sample_roundtrip d s1 s2 by simp
qed

subsection \<open>Manual resend\<close>

lemma latest_Some: "xs \<noteq> [] \<Longrightarrow> \<exists>m. latest key xs = Some m"
  by (induction xs) (auto split: option.splits)

lemma latest_max:
  "latest key xs = Some m \<Longrightarrow> m \<in> set xs \<and> (\<forall>x \<in> set xs. key x \<le> key m)"
proof (induction xs arbitrary: m)
  case Nil
  then show ?case by simp
next
  case (Cons r rs)
  show ?case
  proof (cases "latest key rs")
    case None
    then have "rs = []" using latest_Some [of rs key] by auto
    with Cons.prems None show ?thesis by simp
  next
    case (Some m')
    from Cons.IH [OF Some] have ih: "m' \<in> set rs" "\<forall>x \<in> set rs. key x \<le> key m'" by auto
    show ?thesis
    proof (cases "key m' > key r")
      case True
      with Cons.prems Some have "m = m'" by simp
      with ih True show ?thesis by auto
    next
      case False
      with Cons.prems Some have "m = r" by simp
      with ih False show ?thesis by fastforce
    qed
  qed
qed

text \<open>
  C7. If the send log holds a row for the invoice with type \<open>email\<close>, status \<open>sent\<close>
  or \<open>delivered\<close>, created less than an hour ago, \<open>POST /:id/send\<close> answers 200
  with the newest such row and returns the queue and the world as they were: no job is
  enqueued or run and no row is added.
\<close>

theorem resend_short_circuits:
  assumes logged: "r \<in> set (send_logs (db w))"
    and invoice: "invoice_id r = i"
    and email: "send_type r = ''email''"
    and sent: "status r = ''sent'' \<or> status r = ''delivered''"
    and recent: "now - 3600 < created_at r"
  shows "\<exists>prior. postSend q user i now dateNow w = (Json 200 (AlreadySent prior), q, w) \<and>
    prior \<in> set (send_logs (db w)) \<and> invoice_id prior = i \<and> send_type prior = ''email'' \<and>
    (status prior = ''sent'' \<or> status prior = ''delivered'') \<and>
    now - 3600 < created_at prior \<and> created_at r \<le> created_at prior"
proof -
  let ?match = "\<lambda>r. invoice_id r = i \<and> send_type r = ''email'' \<and>
                    (status r = ''sent'' \<or> status r = ''delivered'') \<and>
                    created_at r > now - 3600"
  let ?rows = "filter ?match (send_logs (db w))"
  have r: "r \<in> set ?rows" using assms by simp
  have "?rows \<noteq> []"
  proof
    assume "?rows = []"
    then have "set ?rows = {}" by (simp only: set_empty)
    with r show False by (simp only: empty_iff)
  qed
  then obtain prior where prior: "latest created_at ?rows = Some prior"
    using latest_Some by blast
  from latest_max [OF prior] r have
    p: "prior \<in> set ?rows" and newest: "created_at r \<le> created_at prior"
    by auto
  have "postSend q user i now dateNow w = (Json 200 (AlreadySent prior), q, w)"
    using prior by (simp add: postSend_def recentSend_def)
  with p newest show ?thesis by auto
qed

theorem resend_short_circuits_witness:
  "sentLog \<in> set (send_logs (db alreadySent)) \<and> status sentLog = ''sent'' \<and>
   1700000100 - 3600 < created_at sentLog \<and>
   postSend sampleQueue None 1 1700000100 1700000100000 alreadySent =
     (Json 200 (AlreadySent sentLog), sampleQueue, alreadySent)"
proof -
  have h: "sentLog \<in> set (send_logs (db alreadySent))" "invoice_id sentLog = 1"
    "send_type sentLog = ''email''" "status sentLog = ''sent'' \<or> status sentLog = ''delivered''"
    "1700000100 - 3600 < created_at sentLog"
    by (simp_all add: alreadySent_def sentLog_def sendingRow_def sendType_def)
  from resend_short_circuits [OF h, of sampleQueue None 1700000100000]
  obtain prior where
    "postSend sampleQueue None 1 1700000100 1700000100000 alreadySent =
       (Json 200 (AlreadySent prior), sampleQueue, alreadySent)"
    "prior \<in> set (send_logs (db alreadySent))"
    by blast
  moreover have "send_logs (db alreadySent) = [sentLog]" by (simp add: alreadySent_def)
  moreover have "status sentLog = ''sent''" by (simp add: sentLog_def)
  ultimately show ?thesis using h by simp
qed

subsection \<open>The in-memory queue\<close>

text \<open>
  C8, as the code has it. With no processor registered, \<open>add\<close> returns a job named by
  the clock, without a result, and leaves the queue and the world alone. With a processor
  registered, \<open>add\<close> runs it on the new job before it returns: an error of the processor
  is thrown again, a result is returned inside the job, and the world is the one the
  processor left.
\<close>

theorem mock_queue_add:
  "(processor q = None \<longrightarrow>
      add q jobName payload now w =
        (Inr \<lparr>queued_id = toString (JNum now), queued_data = payload, result = None\<rparr>, q, w)) \<and>
   (\<forall>run err w'. processor q = Some run \<and>
        run \<lparr>job_id = toString (JNum now), job_payload = payload\<rparr> w = (Inl err, w') \<longrightarrow>
      add q jobName payload now w = (Inl err, q, w')) \<and>
   (\<forall>run res w'. processor q = Some run \<and>
        run \<lparr>job_id = toString (JNum now), job_payload = payload\<rparr> w = (Inr res, w') \<longrightarrow>
      add q jobName payload now w =
        (Inr \<lparr>queued_id = toString (JNum now), queued_data = payload, result = Some res\<rparr>, q, w'))"
  by (simp add: add_def Let_def)

lemma emailDown_outcome:
  "emailOutcome emailDown sampleSettings prefs sampleData a =
     Inl (sendFailure (Error ''connection refused''))"
  by (simp add: emailOutcome_def emailAttempted_def sample_facts(7,8) sendInvoiceEmail_def
      emailDown_def sampleEnv_def)

lemma emailDown_result:
  "fst (sendInvoiceProcessor rt emailDown j sampleWorld) =
     Inl (sendFailure (Error ''connection refused''))" if "job_payload j = sampleData"
  unfolding run_trace(2) [OF that [symmetric] sample_facts(2-4) refl sample_facts(5)]
    emailDown_outcome
  by simp

theorem mock_queue_add_counterexample:
  "fst (add failingQueue ''send-invoice'' sampleData 1700000000000 sampleWorld) =
     Inl (sendFailure (Error ''connection refused''))"
proof -
  have p: "processor failingQueue = Some (sendInvoiceProcessor sampleRuntime emailDown)"
    by (simp add: failingQueue_def process_def)
  obtain r w' where run: "sendInvoiceProcessor sampleRuntime emailDown
      \<lparr>job_id = numToString 1700000000000, job_payload = sampleData\<rparr> sampleWorld = (r, w')"
    by (cases "sendInvoiceProcessor sampleRuntime emailDown
      \<lparr>job_id = numToString 1700000000000, job_payload = sampleData\<rparr> sampleWorld")
  have "fst (sendInvoiceProcessor sampleRuntime emailDown
      \<lparr>job_id = numToString 1700000000000, job_payload = sampleData\<rparr> sampleWorld) =
      Inl (sendFailure (Error ''connection refused''))"
    by (rule emailDown_result) simp
  then have "r = Inl (sendFailure (Error ''connection refused''))"
    by (simp add: run)
  then show ?thesis
    using run by (simp add: add_def p Let_def)
qed

theorem mock_queue_add_witness:
  "processor (mockQueue ''invoice-notifications'' :: (job_data, job_result, world) MockQueue) = None \<and>
   add (mockQueue ''invoice-notifications'' :: (job_data, job_result, world) MockQueue)
      ''send-invoice'' sampleData 1700000000000 sampleWorld =
     (Inr \<lparr>queued_id = numToString 1700000000000, queued_data = sampleData, result = None\<rparr>,
      mockQueue ''invoice-notifications'', sampleWorld) \<and>
   processor failingQueue = Some (sendInvoiceProcessor sampleRuntime emailDown) \<and>
   add failingQueue ''send-invoice'' sampleData 1700000000000 sampleWorld =
     (Inl (sendFailure (Error ''connection refused'')), failingQueue,
      snd (sendInvoiceProcessor sampleRuntime emailDown
        \<lparr>job_id = numToString 1700000000000, job_payload = sampleData\<rparr> sampleWorld))"
proof -
  have n: "processor (mockQueue ''invoice-notifications'' ::
      (job_data, job_result, world) MockQueue) = None"
    by (simp add: mockQueue_def)
  have p: "processor failingQueue = Some (sendInvoiceProcessor sampleRuntime emailDown)"
    by (simp add: failingQueue_def process_def)
  have r: "sendInvoiceProcessor sampleRuntime emailDown
      \<lparr>job_id = numToString 1700000000000, job_payload = sampleData\<rparr> sampleWorld =
      (Inl (sendFailure (Error ''connection refused'')),
       snd (sendInvoiceProcessor sampleRuntime emailDown
        \<lparr>job_id = numToString 1700000000000, job_payload = sampleData\<rparr> sampleWorld))"
    using emailDown_result [of "\<lparr>job_id = numToString 1700000000000, job_payload = sampleData\<rparr>"
        sampleRuntime]
    by (simp add: prod_eq_iff)
  note unhandled = mock_queue_add [of "mockQueue ''invoice-notifications''" "''send-invoice''"
      sampleData 1700000000000 sampleWorld, THEN conjunct1, rule_format, OF n]
  note rethrown = mock_queue_add [of failingQueue "''send-invoice''" sampleData 1700000000000
      sampleWorld, THEN conjunct2, THEN conjunct1, rule_format, OF conjI [OF p]]
  have "add failingQueue ''send-invoice'' sampleData 1700000000000 sampleWorld =
     (Inl (sendFailure (Error ''connection refused'')), failingQueue,
      snd (sendInvoiceProcessor sampleRuntime emailDown
        \<lparr>job_id = numToString 1700000000000, job_payload = sampleData\<rparr> sampleWorld))"
    by (rule rethrown) (simp add: r [symmetric])
  with unhandled n p show ?thesis by simp
qed

subsection \<open>Runs of the concrete configuration\<close>

lemma sample_artifact_env:
  assumes "generateInvoicePDF e = generateInvoicePDF sampleEnv"
    and "savePDF e = savePDF sampleEnv"
    and "Date_now e = Date_now sampleEnv"
  shows "fst (generatePdfStep rt e (Some sampleSettings) sampleData w) =
     (Some [37, 80, 68, 70], Some ''invoice-INV-1001.pdf'',
      Some (generateSignedUrl rt 1700000000000 (JStr (pdfPath 1)) 7))"
proof -
  have g: "generateInvoicePDF e (invoiceData sampleData) (companyData sampleSettings) =
      Inr [37, 80, 68, 70]"
    by (simp add: assms sampleEnv_def)
  have s: "savePDF e [37, 80, 68, 70]
      (''invoice-'' @ invoiceNumber (invoiceData sampleData) @ ''.pdf'') =
      Inr \<lparr>fileName = ''invoice-INV-1001.pdf'', filePath = ''storage/invoice-INV-1001.pdf'',
           fileSize = 4, fileHash = ''00'', storageType = ''local''\<rparr>"
    by (simp add: assms sampleEnv_def sampleData_def sampleInvoice_def invoice_data.truncate_def)
  show ?thesis
    unfolding pdf_stored [OF g s]
    by (simp add: assms sampleEnv_def sampleData_def sampleInvoice_def sampleSettings_def
        invoice_data.truncate_def orNumber_def)
qed

lemma emailDown_artifact:
  "fst (generatePdfStep rt emailDown (Some sampleSettings) sampleData w) =
     (Some [37, 80, 68, 70], Some ''invoice-INV-1001.pdf'',
      Some (generateSignedUrl rt 1700000000000 (JStr (pdfPath 1)) 7))"
  by (rule sample_artifact_env) (simp_all add: emailDown_def)

lemma phoneMalformed_artifact:
  "fst (generatePdfStep rt phoneMalformed (Some sampleSettings) sampleData w) =
     (Some [37, 80, 68, 70], Some ''invoice-INV-1001.pdf'',
      Some (generateSignedUrl rt 1700000000000 (JStr (pdfPath 1)) 7))"
  by (rule sample_artifact_env) (simp_all add: phoneMalformed_def)

theorem email_dispatch_failure_witness:
  "email_enabled sampleSettings \<and> emailInit emailDown sampleSettings = Inr () \<and>
   fst (sendInvoiceProcessor sampleRuntime emailDown sampleJob sampleWorld) =
     Inl (sendFailure (Error ''connection refused'')) \<and>
   send_logs (db (snd (sendInvoiceProcessor sampleRuntime emailDown sampleJob sampleWorld))) =
     [(sendingRow Email 1 1 (Some ''ada@example.com'') (Some ''sendgrid'') (Some ''manual'')
         (Some ''manual'') 1700000001)
      \<lparr>status := ''failed'', error_message := Some ''connection refused'', error_code := None\<rparr>] \<and>
   invoices (db (snd (sendInvoiceProcessor sampleRuntime emailDown sampleJob sampleWorld))) 1 =
     Some (sampleInvoice\<lparr>send_status := ''failed''\<rparr>)"
proof -
  have init: "emailInit emailDown sampleSettings = Inr ()"
    by (simp add: emailDown_def sampleEnv_def)
  have throws: "emailTransmit emailDown (emailParams emailDown sampleSettings
      (Some samplePreferences) sampleData
      (fst (generatePdfStep sampleRuntime emailDown (Some sampleSettings) sampleData
         (logEvent (Progress 10) sampleWorld)))) = Inl (Error ''connection refused'')"
    by (simp add: emailDown_def sampleEnv_def)
  note t = email_dispatch_failure [OF sample_facts(1-4) sample_facts(7,8) refl init throws
      sample_facts(6) sample_facts(5) refl]
  have v: "send_logs (db sampleWorld) = []" "invoiceId sampleData = 1"
    "customerEmail (invoiceData sampleData) = Some ''ada@example.com''"
    "email_provider sampleSettings = Some ''sendgrid''"
    "triggeredBy sampleData = Some ''manual''" "triggerType sampleData = Some ''manual''"
    "now_email emailDown = 1700000001" "nextId [] = 1"
    "message (Error ''connection refused'') = Some ''connection refused''"
    "code (Error ''connection refused'') = None"
    by (simp_all add: sampleWorld_def sampleDatabase_def sampleData_def sampleInvoice_def
        sampleSettings_def emailDown_def sampleEnv_def nextId_def Error_def
        invoice_data.truncate_def)
  from t show ?thesis
    using init sample_facts(7) by (simp add: v)
qed

lemma phoneMalformed_sms:
  "sendInvoiceSMS phoneMalformed (smsParams sampleSettings sampleData url) =
     Inl (sendFailure (Error ''Invalid phone number: 555-0100''))"
  by (simp add: sendInvoiceSMS_def validatePhoneNumber_def smsParams_def phoneMalformed_def
      sampleEnv_def sampleData_def sampleInvoice_def invoice_data.truncate_def)

theorem sms_failure_not_fatal_witness:
  "sms_enabled sampleSettings \<and> optedIn (Some samplePreferences) \<and>
   sendInvoiceSMS phoneMalformed (smsParams sampleSettings sampleData
     (Some (generateSignedUrl sampleRuntime 1700000000000 (JStr (pdfPath 1)) 7))) =
     Inl (sendFailure (Error ''Invalid phone number: 555-0100'')) \<and>
   fst (sendInvoiceProcessor sampleRuntime phoneMalformed sampleJob sampleWorld) =
     Inr (Success 1 (Some ''invoice-INV-1001.pdf'')) \<and>
   (\<exists>row'. invoices (db (snd (sendInvoiceProcessor sampleRuntime phoneMalformed sampleJob
       sampleWorld))) 1 = Some row' \<and> send_status row' = ''sent'') \<and>
   Run (UpdateSendStatus ''failed'') \<notin>
     set (trace (snd (sendInvoiceProcessor sampleRuntime phoneMalformed sampleJob sampleWorld)))"
proof -
  let ?a = "(Some [37, 80, 68, 70], Some ''invoice-INV-1001.pdf'',
      Some (generateSignedUrl sampleRuntime 1700000000000 (JStr (pdfPath 1)) 7))"
  have a: "?a = fst (generatePdfStep sampleRuntime phoneMalformed (Some sampleSettings)
      sampleData (logEvent (Progress 10) sampleWorld))"
    by (simp add: phoneMalformed_artifact)
  have email_ok: "\<not> (email_enabled sampleSettings \<and> truthy (customerEmail (invoiceData sampleData))) \<or>
      (emailInit phoneMalformed sampleSettings = Inr () \<and>
       emailTransmit phoneMalformed (emailParams phoneMalformed sampleSettings
         (Some samplePreferences) sampleData ?a) =
         Inr \<lparr>messageId = Some ''m-1'', response = Some ''{}''\<rparr>)"
    by (simp add: phoneMalformed_def sampleEnv_def)
  have init: "smsInit phoneMalformed sampleSettings = Inr ()"
    by (simp add: phoneMalformed_def sampleEnv_def)
  have throws: "sendInvoiceSMS phoneMalformed (smsParams sampleSettings sampleData
      (snd (snd ?a))) = Inl (sendFailure (Error ''Invalid phone number: 555-0100''))"
    by (rule phoneMalformed_sms)
  note t = sms_failure_not_fatal [OF sample_facts(1-4) a email_ok sample_facts(9-11) init
      throws sample_facts(6) sample_facts(5) refl]
  have v: "invoiceId sampleData = 1" by (simp add: sampleData_def)
  from t show ?thesis
    using sample_facts(9,11) phoneMalformed_sms by (simp add: v)
qed

theorem unsubscribed_job_skipped_witness:
  "loadPreferences (db unsubscribedWorld) (customerEmail (invoiceData (job_payload sampleJob))) =
     Some (samplePreferences\<lparr>email_unsubscribed := True\<rparr>) \<and>
   email_unsubscribed (samplePreferences\<lparr>email_unsubscribed := True\<rparr>) \<and>
   sendInvoiceProcessor sampleRuntime sampleEnv sampleJob unsubscribedWorld =
     (Inr (Skipped ''unsubscribed''), unsubscribedWorld)"
proof -
  have p: "loadPreferences (db unsubscribedWorld)
      (customerEmail (invoiceData (job_payload sampleJob))) =
      Some (samplePreferences\<lparr>email_unsubscribed := True\<rparr>)"
    by (simp add: loadPreferences_def unsubscribedWorld_def sampleWorld_def sampleDatabase_def
        sampleJob_def sampleData_def sampleInvoice_def invoice_data.truncate_def)
  have u: "email_unsubscribed (samplePreferences\<lparr>email_unsubscribed := True\<rparr>)" by simp
  from unsubscribed_job_skipped [OF p u, of sampleRuntime sampleEnv]
  show ?thesis using p u by simp
qed

lemma renderFails_pdf:
  "generateInvoicePDF renderFails (invoiceData sampleData) (companyData s) =
     Inl (Error ''render failed'')"
  by (simp add: renderFails_def)

lemma renderFails_artifact:
  "fst (generatePdfStep rt renderFails (Some s) sampleData w) = (None, None, None)"
  by (simp add: pdf_render_throws [OF renderFails_pdf])

theorem pdf_failure_degrades_witness:
  "generateInvoicePDF renderFails (invoiceData sampleData) (companyData sampleSettings) =
     Inl (Error ''render failed'') \<and>
   email_enabled sampleSettings \<and> truthy (customerEmail (invoiceData sampleData)) \<and>
   emailInit renderFails sampleSettings = Inr () \<and>
   Progress 40 \<in> set (trace (snd (sendInvoiceProcessor sampleRuntime renderFails sampleJob
     sampleWorld))) \<and>
   Call (SendInvoiceEmail None None None) \<in>
     set (trace (snd (sendInvoiceProcessor sampleRuntime renderFails sampleJob sampleWorld))) \<and>
   (\<exists>row'. invoices (db (snd (sendInvoiceProcessor sampleRuntime renderFails sampleJob
       sampleWorld))) (invoiceId sampleData) = Some row' \<and>
     send_status row' = (if isl (fst (sendInvoiceProcessor sampleRuntime renderFails sampleJob
       sampleWorld)) then ''failed'' else ''sent''))"
proof -
  have fails: "generateInvoicePDF renderFails (invoiceData sampleData) (companyData sampleSettings) =
      Inl (Error ''render failed'') \<or>
      (\<exists>buffer. generateInvoicePDF renderFails (invoiceData sampleData)
          (companyData sampleSettings) = Inr buffer \<and>
         savePDF renderFails buffer (''invoice-'' @ invoiceNumber (invoiceData sampleData) @
          ''.pdf'') = Inl (Error ''render failed''))"
    using renderFails_pdf by blast
  have init: "emailInit renderFails sampleSettings = Inr ()"
    by (simp add: renderFails_def sampleEnv_def)
  note t = pdf_failure_degrades [OF sample_facts(1-4) fails sample_facts(6) sample_facts(5)
      refl refl]
  from t show ?thesis
    using renderFails_pdf sample_facts(7,8) init by blast
qed

lemma emailDisabled_facts:
  "invoice_settings (db emailDisabled) = Some (sampleSettings\<lparr>email_enabled := False\<rparr>)"
  "Some samplePreferences =
     loadPreferences (db emailDisabled) (customerEmail (invoiceData sampleData))"
  "trace emailDisabled = []"
  "send_logs (db emailDisabled) = []"
  by (simp_all add: emailDisabled_def sampleWorld_def sampleDatabase_def sampleData_def
      sampleInvoice_def loadPreferences_def invoice_data.truncate_def)

theorem pdf_failure_degrades_counterexample:
  "generateInvoicePDF renderFails (invoiceData sampleData)
     (companyData (sampleSettings\<lparr>email_enabled := False\<rparr>)) = Inl (Error ''render failed'') \<and>
   trace (snd (sendInvoiceProcessor sampleRuntime renderFails sampleJob emailDisabled)) =
     [Progress 10, Call GenerateInvoicePDF, Threw GenerateInvoicePDF, Progress 40, Progress 70,
      Run (InsertSendLog Sms 1), Call (ServiceInit Sms), Returned (ServiceInit Sms),
      Call (SendInvoiceSMS None), Returned (SendInvoiceSMS None),
      Run (UpdateSendLog Sms 1 ''sent''), Run (UpdateInvoiceSent Sms),
      Progress 100, Run (UpdateSendStatus ''sent'')]"
proof -
  let ?s = "sampleSettings\<lparr>email_enabled := False\<rparr>"
  let ?w2 = "snd (generatePdfStep sampleRuntime renderFails (Some ?s) sampleData
      (logEvent (Progress 10) emailDisabled))"
  have a: "(None, None, None) = fst (generatePdfStep sampleRuntime renderFails (Some ?s)
      sampleData (logEvent (Progress 10) emailDisabled))"
    by (simp add: renderFails_artifact)
  have off: "\<not> (email_enabled ?s \<and> truthy (customerEmail (invoiceData sampleData)))"
    by (simp add: sampleSettings_def)
  have logs: "send_logs (db (snd (sendEmailStep renderFails (Some ?s) (Some samplePreferences)
      sampleData (None, None, None) (logEvent (Progress 40) ?w2)))) = []"
    by (simp add: email_not_attempted [OF off] logEvent_simps pdf_step_db emailDisabled_facts)
  have sms: "smsAttempted ?s (Some samplePreferences) sampleData"
    "smsInit renderFails ?s = Inr ()"
    "sendInvoiceSMS renderFails (smsParams ?s sampleData None) =
       Inr \<lparr>messageId = Some ''s-1'', response = None\<rparr>"
    by (simp_all add: smsAttempted_def sample_facts(11) sampleSettings_def renderFails_def
        sampleEnv_def sendInvoiceSMS_def validatePhoneNumber_def smsParams_def sampleData_def
        sampleInvoice_def invoice_data.truncate_def truthy_def)
  have out: "emailOutcome renderFails ?s (Some samplePreferences) sampleData (None, None, None) =
      Inr ()"
    using off by (simp add: emailOutcome_def emailAttempted_def)
  have tr: "trace (snd (sendInvoiceProcessor sampleRuntime renderFails sampleJob emailDisabled)) =
      runEvents renderFails ?s (Some samplePreferences) sampleData (None, None, None) 1 1"
    unfolding run_trace_ids(1) [OF sample_facts(1) emailDisabled_facts(1,2) sample_facts(4) a
        emailDisabled_facts(3)] logs emailDisabled_facts(4)
    by (simp add: nextId_def)
  show ?thesis
    unfolding tr
    using off
    by (simp add: renderFails_pdf runEvents_def pdfStepEvents_def channelEvents_def
        emailAttempted_def out sms)
qed

lemma sample_email_sent:
  "emailInit sampleEnv sampleSettings = Inr ()"
  "sendInvoiceEmail sampleEnv p = Inr \<lparr>messageId = Some ''m-1'', response = Some ''{}''\<rparr>"
  "emailOutcome sampleEnv sampleSettings prefs sampleData a = Inr ()"
  by (simp_all add: sampleEnv_def sendInvoiceEmail_def emailOutcome_def)





lemma sample_result:
  "fst (sendInvoiceProcessor rt sampleEnv sampleJob sampleWorld) =
     Inr (Success 1 (Some ''invoice-INV-1001.pdf''))"
  unfolding run_trace(2) [OF sample_facts(1-4) sample_artifact [symmetric] sample_facts(5)]
    sample_email_sent
  by (simp add: sampleData_def)

theorem progress_reports_witness:
  "trace sampleWorld = [] \<and>
   \<not> unsubscribed (loadPreferences (db sampleWorld) (customerEmail (invoiceData sampleData))) \<and>
   progressReports (trace (snd (sendInvoiceProcessor sampleRuntime sampleEnv sampleJob
     sampleWorld))) = [10, 25, 40, 70, 100] \<and>
   (\<exists>render store mail sms.
      trace (snd (sendInvoiceProcessor sampleRuntime sampleEnv sampleJob sampleWorld)) =
        Progress 10 # render @ Progress 25 # store @ Progress 40 # mail @
        Progress 70 # sms @ [Progress 100, Run (UpdateSendStatus ''sent'')] \<and>
      render = [Call GenerateInvoicePDF, Returned GenerateInvoicePDF] \<and>
      set store \<subseteq> storeEvents \<and> Call SavePDF \<in> set store \<and>
      (\<forall>ev\<in>set mail. concerns Email ev) \<and> (\<forall>ev\<in>set sms. concerns Sms ev))"
proof -
  have r: "rendered sampleEnv (invoice_settings (db sampleWorld)) sampleData"
    by (simp add: rendered_def sample_facts(2) sampleEnv_def)
  have u: "\<not> unsubscribed (loadPreferences (db sampleWorld)
      (customerEmail (invoiceData sampleData)))"
    using sample_facts(3,4) by simp
  have ok: "\<not> isl (fst (sendInvoiceProcessor sampleRuntime sampleEnv sampleJob sampleWorld))"
    by (simp add: sample_result)
  from progress_reports [OF sample_facts(5) sample_facts(1) refl refl refl refl,
      of sampleRuntime sampleEnv]
  show ?thesis
    using sample_facts(5) u r ok by auto
qed

theorem progress_reports_counterexample:
  "fst (sendInvoiceProcessor sampleRuntime renderFails sampleJob sampleWorld) =
     Inr (Success 1 None) \<and>
   progressReports (trace (snd (sendInvoiceProcessor sampleRuntime renderFails sampleJob
     sampleWorld))) = [10, 40, 70, 100]"
proof -
  have a: "(None, None, None) = fst (generatePdfStep sampleRuntime renderFails
      (Some sampleSettings) sampleData (logEvent (Progress 10) sampleWorld))"
    by (simp add: renderFails_artifact)
  have out: "emailOutcome renderFails sampleSettings (Some samplePreferences) sampleData
      (None, None, None) = Inr ()"
    by (simp add: emailOutcome_def renderFails_def sampleEnv_def sendInvoiceEmail_def)
  have res: "fst (sendInvoiceProcessor sampleRuntime renderFails sampleJob sampleWorld) =
      Inr (Success 1 None)"
    unfolding run_trace(2) [OF sample_facts(1-4) a sample_facts(5)] out
    by (simp add: sampleData_def)
  have "progressReports (runEvents renderFails sampleSettings (Some samplePreferences)
      sampleData (None, None, None) i1 i2) = [10, 40, 70, 100]" for i1 i2
    by (simp add: runEvents_def out progressReports_simps progress_channelEvents
        progress_pdfStepEvents rendered_def renderFails_pdf)
  with run_trace(1) [OF sample_facts(1-4) a sample_facts(5)] res
  show ?thesis by auto
qed

end
